theory Spec2Isabelle
  imports Complex_Main "HOL-Library.Word"
begin

section \<open>JavaScript numbers\<close>

text \<open>
  The synthesiser is TypeScript; every numeric value is an IEEE double. The model keeps
  the three non-finite values that the code can produce or test for (\<open>NaN\<close>,
  \<open>+Infinity\<close>, \<open>-Infinity\<close>) and idealises every finite double as a real number:
  rounding of finite results and the sign of zero are not represented. Integer
  conversions (\<open>x | 0\<close>, typed-array stores, \<open>writeUInt32LE\<close>) are modelled exactly,
  with their wrap-around and range checks.
\<close>

datatype number = Fin real | NaN | PosInf | NegInf

definition truncR :: "real \<Rightarrow> int" where
  "truncR r = (if 0 \<le> r then \<lfloor>r\<rfloor> else \<lceil>r\<rceil>)"

definition wrapInt32 :: "int \<Rightarrow> int" where
  "wrapInt32 n = (let m = n mod 4294967296 in if 2147483648 \<le> m then m - 4294967296 else m)"

text \<open>\<open>x | 0\<close>: ToInt32, which maps the non-finite values to 0, truncates towards zero
  and wraps modulo \<open>2^32\<close> into the signed range.\<close>

fun toInt32 :: "number \<Rightarrow> int" where
  "toInt32 (Fin r) = wrapInt32 (truncR r)"
| "toInt32 NaN = 0"
| "toInt32 PosInf = 0"
| "toInt32 NegInf = 0"

text \<open>Arithmetic on numbers. A non-finite operand follows the IEEE rules; division of a
  finite number by zero gives an infinity of the sign of the numerator, or \<open>NaN\<close> for
  \<open>0/0\<close>.\<close>

fun negN :: "number \<Rightarrow> number" where
  "negN (Fin a) = Fin (- a)"
| "negN NaN = NaN"
| "negN PosInf = NegInf"
| "negN NegInf = PosInf"

fun addN :: "number \<Rightarrow> number \<Rightarrow> number" where
  "addN (Fin a) (Fin b) = Fin (a + b)"
| "addN NaN y = NaN"
| "addN (Fin a) y = y"
| "addN PosInf (Fin b) = PosInf"
| "addN PosInf PosInf = PosInf"
| "addN PosInf y = NaN"
| "addN NegInf (Fin b) = NegInf"
| "addN NegInf NegInf = NegInf"
| "addN NegInf y = NaN"

definition subN :: "number \<Rightarrow> number \<Rightarrow> number" where
  "subN x y = addN x (negN y)"

definition infOfSign :: "real \<Rightarrow> number" where
  "infOfSign a = (if a = 0 then NaN else if 0 < a then PosInf else NegInf)"

fun mulN :: "number \<Rightarrow> number \<Rightarrow> number" where
  "mulN (Fin a) (Fin b) = Fin (a * b)"
| "mulN NaN y = NaN"
| "mulN x NaN = NaN"
| "mulN (Fin a) PosInf = infOfSign a"
| "mulN (Fin a) NegInf = infOfSign (- a)"
| "mulN PosInf (Fin b) = infOfSign b"
| "mulN NegInf (Fin b) = infOfSign (- b)"
| "mulN PosInf PosInf = PosInf"
| "mulN PosInf NegInf = NegInf"
| "mulN NegInf PosInf = NegInf"
| "mulN NegInf NegInf = PosInf"

fun divN :: "number \<Rightarrow> number \<Rightarrow> number" where
  "divN (Fin a) (Fin b) = (if b = 0 then infOfSign a else Fin (a / b))"
| "divN NaN y = NaN"
| "divN x NaN = NaN"
| "divN (Fin a) y = Fin 0"
| "divN PosInf (Fin b) = (if 0 \<le> b then PosInf else NegInf)"
| "divN NegInf (Fin b) = (if 0 \<le> b then NegInf else PosInf)"
| "divN x y = NaN"

text \<open>Comparisons: any comparison with \<open>NaN\<close> is false.\<close>

fun ltN :: "number \<Rightarrow> number \<Rightarrow> bool" where
  "ltN (Fin a) (Fin b) = (a < b)"
| "ltN NaN y = False"
| "ltN x NaN = False"
| "ltN x NegInf = False"
| "ltN PosInf y = False"
| "ltN x y = True"

fun leN :: "number \<Rightarrow> number \<Rightarrow> bool" where
  "leN (Fin a) (Fin b) = (a \<le> b)"
| "leN NaN y = False"
| "leN x NaN = False"
| "leN NegInf y = True"
| "leN x PosInf = True"
| "leN x y = False"

fun floorN :: "number \<Rightarrow> number" where
  "floorN (Fin a) = Fin (of_int \<lfloor>a\<rfloor>)"
| "floorN x = x"

fun ceilN :: "number \<Rightarrow> number" where
  "ceilN (Fin a) = Fin (of_int \<lceil>a\<rceil>)"
| "ceilN x = x"

fun minN :: "number \<Rightarrow> number \<Rightarrow> number" where
  "minN NaN y = NaN"
| "minN x NaN = NaN"
| "minN x y = (if leN x y then x else y)"

fun maxN :: "number \<Rightarrow> number \<Rightarrow> number" where
  "maxN NaN y = NaN"
| "maxN x NaN = NaN"
| "maxN x y = (if leN x y then y else x)"

text \<open>\<open>Math.round\<close>: the nearest integer, a tie going up.\<close>

fun roundN :: "number \<Rightarrow> number" where
  "roundN (Fin a) = Fin (of_int \<lfloor>a + 1 / 2\<rfloor>)"
| "roundN x = x"

fun sinN :: "number \<Rightarrow> number" where
  "sinN (Fin a) = Fin (sin a)"
| "sinN x = NaN"

fun logN :: "number \<Rightarrow> number" where
  "logN (Fin a) = (if 0 < a then Fin (ln a) else if a = 0 then NegInf else NaN)"
| "logN PosInf = PosInf"
| "logN x = NaN"

definition isInt :: "real \<Rightarrow> bool" where
  "isInt r = (r = of_int \<lfloor>r\<rfloor>)"

text \<open>\<open>Math.pow(base, exponent)\<close>, case by case as the language defines it.\<close>

fun powN :: "number \<Rightarrow> number \<Rightarrow> number" where
  "powN b NaN = NaN"
| "powN b (Fin e) =
     (if e = 0 then Fin 1
      else case b of
        NaN \<Rightarrow> NaN
      | PosInf \<Rightarrow> (if 0 < e then PosInf else Fin 0)
      | NegInf \<Rightarrow> (if 0 < e then (if isInt e \<and> odd \<lfloor>e\<rfloor> then NegInf else PosInf) else Fin 0)
      | Fin x \<Rightarrow>
          (if x = 0 then (if 0 < e then Fin 0 else PosInf)
           else if 0 < x then Fin (x powr e)
           else if isInt e then Fin ((if odd \<lfloor>e\<rfloor> then - 1 else 1) * (\<bar>x\<bar> powr e))
           else NaN))"
| "powN b PosInf =
     (case b of
        NaN \<Rightarrow> NaN
      | Fin x \<Rightarrow> (if 1 < \<bar>x\<bar> then PosInf else if \<bar>x\<bar> = 1 then NaN else Fin 0)
      | PosInf \<Rightarrow> PosInf
      | NegInf \<Rightarrow> PosInf)"
| "powN b NegInf =
     (case b of
        NaN \<Rightarrow> NaN
      | Fin x \<Rightarrow> (if 1 < \<bar>x\<bar> then Fin 0 else if \<bar>x\<bar> = 1 then NaN else PosInf)
      | PosInf \<Rightarrow> Fin 0
      | NegInf \<Rightarrow> Fin 0)"

text \<open>Truthiness of a number: \<open>!x\<close> holds for 0 and \<open>NaN\<close>.\<close>

fun falsy :: "number \<Rightarrow> bool" where
  "falsy (Fin a) = (a = 0)"
| "falsy NaN = True"
| "falsy x = False"

text \<open>Arrays of numbers: reading outside the array gives \<open>undefined\<close>, which every use
  below turns into \<open>NaN\<close>; writing past the end extends the array, the holes reading
  as \<open>undefined\<close> again.\<close>

definition arrGet :: "number list \<Rightarrow> int \<Rightarrow> number" where
  "arrGet xs k = (if 0 \<le> k \<and> k < int (length xs) then xs ! nat k else NaN)"

definition arrSet :: "number list \<Rightarrow> nat \<Rightarrow> number \<Rightarrow> number list" where
  "arrSet xs k v =
     (if k < length xs then xs[k := v] else xs @ replicate (k - length xs) NaN @ [v])"

section \<open>Byte buffers and the WAV container\<close>

datatype error = InvalidSound | InvalidNote | RangeError | TypeError

type_synonym byte = "8 word"
type_synonym buffer = "byte list"

definition bindE :: "error + 'a \<Rightarrow> ('a \<Rightarrow> error + 'b) \<Rightarrow> error + 'b" where
  "bindE r f = (case r of Inl e \<Rightarrow> Inl e | Inr x \<Rightarrow> f x)"

text \<open>\<open>Buffer.alloc(n)\<close>: \<open>n\<close> zero bytes.\<close>

definition alloc :: "nat \<Rightarrow> buffer" where
  "alloc n = replicate n 0"

text \<open>Storing bytes from an offset on; a store past the end of the buffer is dropped.\<close>

fun writeAt :: "buffer \<Rightarrow> nat \<Rightarrow> byte list \<Rightarrow> buffer" where
  "writeAt buf off [] = buf"
| "writeAt buf off (b # bs) = writeAt (buf[off := b]) (Suc off) bs"

text \<open>\<open>buffer.write(str, offset)\<close> for an ASCII string.\<close>

definition writeStr :: "string \<Rightarrow> nat \<Rightarrow> buffer \<Rightarrow> buffer" where
  "writeStr s off buf = writeAt buf off (map (\<lambda>c. of_nat (of_char c)) s)"

text \<open>The \<open>k\<close> low bytes of \<open>v\<close>, least significant first.\<close>

fun leBytes :: "nat \<Rightarrow> nat \<Rightarrow> byte list" where
  "leBytes 0 v = []"
| "leBytes (Suc k) v = of_nat (v mod 256) # leBytes k (v div 256)"

text \<open>\<open>writeUInt32LE\<close> and \<open>writeUInt16LE\<close> raise a range error when the value is
  below 0 or above the largest value of the field, or when the field does not fit into
  the buffer; a fractional value in range is stored truncated.\<close>

definition writeUInt32LE :: "real \<Rightarrow> nat \<Rightarrow> buffer \<Rightarrow> error + buffer" where
  "writeUInt32LE v off buf =
     (if v < 0 \<or> 4294967295 < v \<or> length buf < off + 4 then Inl RangeError
      else Inr (writeAt buf off (leBytes 4 (nat \<lfloor>v\<rfloor>))))"

definition writeUInt16LE :: "real \<Rightarrow> nat \<Rightarrow> buffer \<Rightarrow> error + buffer" where
  "writeUInt16LE v off buf =
     (if v < 0 \<or> 65535 < v \<or> length buf < off + 2 then Inl RangeError
      else Inr (writeAt buf off (leBytes 2 (nat \<lfloor>v\<rfloor>))))"

text \<open>\<open>createWavHeader(dataLength, sampleRate = 44100, channels = 1, bitsPerSample = 16)\<close>.\<close>

definition createWavHeader :: "real \<Rightarrow> real \<Rightarrow> real \<Rightarrow> real \<Rightarrow> error + buffer" where
  "createWavHeader dataLength sr channels bitsPerSample =
     (let byteRate = sr * channels * bitsPerSample / 8;
          blockAlign = channels * bitsPerSample / 8;
          b0 = writeStr ''RIFF'' 0 (alloc 44)
      in bindE (writeUInt32LE (36 + dataLength) 4 b0) (\<lambda>b1.
         bindE (writeUInt32LE 16 16 (writeStr ''fmt '' 12 (writeStr ''WAVE'' 8 b1))) (\<lambda>b2.
         bindE (writeUInt16LE 1 20 b2) (\<lambda>b3.
         bindE (writeUInt16LE channels 22 b3) (\<lambda>b4.
         bindE (writeUInt32LE sr 24 b4) (\<lambda>b5.
         bindE (writeUInt32LE byteRate 28 b5) (\<lambda>b6.
         bindE (writeUInt16LE blockAlign 32 b6) (\<lambda>b7.
         bindE (writeUInt16LE bitsPerSample 34 b7) (\<lambda>b8.
         writeUInt32LE dataLength 40 (writeStr ''data'' 36 b8))))))))))"

text \<open>\<open>extractPCM(wav) = wav.slice(44)\<close>.\<close>

definition extractPCM :: "buffer \<Rightarrow> buffer" where
  "extractPCM wav = drop 44 wav"

text \<open>Reading a little-endian field back, to state what the header holds.\<close>

fun decodeLE :: "byte list \<Rightarrow> nat" where
  "decodeLE [] = 0"
| "decodeLE (b # bs) = unat b + 256 * decodeLE bs"

definition readUInt32LE :: "buffer \<Rightarrow> nat \<Rightarrow> nat" where
  "readUInt32LE buf off = decodeLE (take 4 (drop off buf))"

section \<open>Modulation functions and sound profiles\<close>

text \<open>A modulation function takes the sample index, the sample rate, the frequency and
  an argument \<open>x\<close>.\<close>

type_synonym modfn = "nat \<Rightarrow> int \<Rightarrow> number \<Rightarrow> number \<Rightarrow> number"

text \<open>The function the engine is constructed with:
  \<open>Math.sin((2 * Math.PI) * (i / s) * f + x)\<close>.\<close>

definition baseMod :: modfn where
  "baseMod i s f x =
     sinN (addN (mulN (mulN (Fin (2 * pi)) (divN (Fin (real i)) (Fin (real_of_int s)))) f) x)"

text \<open>The ten functions loaded at start-up:
  \<open>Math.sin(c * Math.PI * (i / s * f) + x)\<close> for c = 2, 4, 8, 0.5, 0.25, and the same
  five multiplied by 0.5.\<close>

definition sinMod :: "real \<Rightarrow> modfn" where
  "sinMod c i s f x =
     sinN (addN (mulN (Fin (c * pi)) (mulN (divN (Fin (real i)) (Fin (real_of_int s))) f)) x)"

definition halfSinMod :: "real \<Rightarrow> modfn" where
  "halfSinMod c i s f x = mulN (Fin 0.5) (sinMod c i s f x)"

definition loadedMods :: "modfn list" where
  "loadedMods =
     [sinMod 2, sinMod 4, sinMod 8, sinMod 0.5, sinMod 0.25,
      halfSinMod 2, halfSinMod 4, halfSinMod 8, halfSinMod 0.5, halfSinMod 0.25]"

text \<open>The scratch object \<open>vars\<close> handed to a wave function; \<open>{}\<close> is the record of the
  defaults that the \<open>??\<close> operators of the acoustic profile fill in.\<close>

record vars =
  valueTable :: "number list"
  playVal :: nat
  periodCount :: nat

definition emptyVars :: vars where
  "emptyVars = \<lparr>valueTable = [], playVal = 0, periodCount = 0\<rparr>"

text \<open>\<open>Math.random()\<close> draws from a source that belongs to the runtime, not to the
  program: a sequence of reals in \<open>[0, 1)\<close> of which each call takes the next.\<close>

type_synonym rng = "nat \<Rightarrow> real"

definition random :: "rng \<Rightarrow> real \<times> rng" where
  "random r = (r 0, \<lambda>n. r (Suc n))"

type_synonym wstate = "vars \<times> rng"

text \<open>A wave function gets the modulation list and the scratch state through \<open>this\<close>.
  It returns \<open>None\<close> where the source raises a type error by calling a modulation slot
  that is not there.\<close>

type_synonym wavefn =
  "modfn list \<Rightarrow> wstate \<Rightarrow> nat \<Rightarrow> int \<Rightarrow> number \<Rightarrow> int \<Rightarrow> (number \<times> wstate) option"

record profile =
  name :: string
  attack :: "int \<Rightarrow> number \<Rightarrow> int \<Rightarrow> number"
  dampen :: "int \<Rightarrow> number \<Rightarrow> int \<Rightarrow> number"
  wave :: wavefn

definition modAt :: "modfn list \<Rightarrow> nat \<Rightarrow> modfn option" where
  "modAt ms k = (if k < length ms then Some (ms ! k) else None)"

text \<open>The argument that the piano wave hands to the second modulation slot:
  \<open>Math.pow(base(i, s, f, 0), 2) + 0.75 * base(i, s, f, 0.25) + 0.1 * base(i, s, f, 0.5)\<close>.\<close>

definition pianoArg :: "modfn \<Rightarrow> nat \<Rightarrow> int \<Rightarrow> number \<Rightarrow> number" where
  "pianoArg base i sr f =
     addN (addN (powN (base i sr f (Fin 0)) (Fin 2))
                (mulN (Fin 0.75) (base i sr f (Fin 0.25))))
          (mulN (Fin 0.1) (base i sr f (Fin 0.5)))"

definition pianoWave :: wavefn where
  "pianoWave ms ws i sr f vol =
     (case modAt ms 0 of None \<Rightarrow> None | Some base \<Rightarrow>
      case modAt ms 1 of None \<Rightarrow> None | Some m1 \<Rightarrow>
        Some (m1 i sr f (pianoArg base i sr f), ws))"

definition piano :: profile where
  "piano = \<lparr>name = ''piano'',
            attack = (\<lambda>sr f vol. Fin 0.002),
            dampen = (\<lambda>sr f vol.
              powN (mulN (Fin 0.5) (logN (divN (mulN f (Fin (real_of_int vol))) (Fin (real_of_int sr)))))
                   (Fin 2)),
            wave = pianoWave\<rparr>"

definition organWave :: wavefn where
  "organWave ms ws i sr f vol =
     (case modAt ms 0 of None \<Rightarrow> None | Some base \<Rightarrow>
      case modAt ms 1 of None \<Rightarrow> None | Some m1 \<Rightarrow>
        Some (m1 i sr f
               (addN (addN (base i sr f (Fin 0))
                           (mulN (Fin 0.5) (base i sr f (Fin 0.25))))
                     (mulN (Fin 0.25) (base i sr f (Fin 0.5)))), ws))"

definition organ :: profile where
  "organ = \<lparr>name = ''organ'',
            attack = (\<lambda>sr f vol. Fin 0.3),
            dampen = (\<lambda>sr f vol. addN (Fin 1) (mulN f (Fin 0.01))),
            wave = organWave\<rparr>"

text \<open>The plucked-string profile. It keeps a table of values in \<open>vars\<close>, seeded with
  random signs, and then averages neighbours while a play cursor runs round the table.\<close>

definition acousticWave :: wavefn where
  "acousticWave ms ws i sr f vol =
     (let vs = fst ws; r = snd ws;
          period = divN (Fin (real_of_int sr)) f;
          p_hundredth = floorN (mulN (subN period (floorN period)) (Fin 100));
          vt = valueTable vs; pv = playVal vs
      in if leN (Fin (real (length vt))) (ceilN period)
         then (let (u, r') = random r;
                   vt' = vt @ [subN (mulN (roundN (Fin u)) (Fin 2)) (Fin 1)]
               in Some (arrGet vt' (int (length vt') - 1), (vs\<lparr>valueTable := vt'\<rparr>, r')))
         else (let vt1 = arrSet vt pv
                     (mulN (addN (arrGet vt (if int (length vt) - 1 \<le> int pv then 0 else int pv + 1))
                                 (arrGet vt (int pv)))
                           (Fin 0.5));
                   fire = (leN (floorN period) (Fin (real pv)) \<and> ltN (Fin (real pv)) (ceilN period)
                           \<and> leN p_hundredth (Fin (real (periodCount vs mod 100))));
                   resetPlay = (if leN (floorN period) (Fin (real pv))
                                then (if ltN (Fin (real pv)) (ceilN period) then fire else True)
                                else False);
                   vt2 = (if fire
                          then arrSet vt1 (pv + 1)
                                 (mulN (addN (arrGet vt1 0) (arrGet vt1 (int pv + 1))) (Fin 0.5))
                          else vt1);
                   pc = (if fire then periodCount vs + 1 else periodCount vs)
               in Some (arrGet vt2 (int pv),
                        (\<lparr>valueTable = vt2, playVal = (if resetPlay then 0 else pv + 1),
                          periodCount = pc\<rparr>, r))))"

definition acoustic :: profile where
  "acoustic = \<lparr>name = ''acoustic'',
               attack = (\<lambda>sr f vol. Fin 0.002),
               dampen = (\<lambda>sr f vol. Fin 1),
               wave = acousticWave\<rparr>"

text \<open>\<open>mod = this.modulate.slice(1)\<close>, so \<open>mod[k]\<close> is slot \<open>k + 1\<close>.\<close>

definition edmWave :: wavefn where
  "edmWave ms ws i sr f vol =
     (case modAt ms 0 of None \<Rightarrow> None | Some base \<Rightarrow>
      case modAt ms 1 of None \<Rightarrow> None | Some mod0 \<Rightarrow>
      case modAt ms 10 of None \<Rightarrow> None | Some mod9 \<Rightarrow>
      case modAt ms 3 of None \<Rightarrow> None | Some mod2 \<Rightarrow>
      case modAt ms 9 of None \<Rightarrow> None | Some mod8 \<Rightarrow>
        Some (mod0 i sr f
               (addN (mod9 i sr f
                        (mod2 i sr f
                           (addN (addN (powN (base i sr f (Fin 0)) (Fin 3))
                                       (powN (base i sr f (Fin 0.5)) (Fin 5)))
                                 (powN (base i sr f (Fin 1)) (Fin 7)))))
                     (mod8 i sr f (base i sr f (Fin 1.75)))), ws))"

definition edm :: profile where
  "edm = \<lparr>name = ''edm'',
          attack = (\<lambda>sr f vol. Fin 0.002),
          dampen = (\<lambda>sr f vol. Fin 1),
          wave = edmWave\<rparr>"

section \<open>The synthesis engine\<close>

text \<open>The note table \<open>_notes\<close>. A lookup \<open>this._notes[note]\<close> follows the prototype chain
  of the object literal: a name that is not one of the twelve keys but is a property of
  \<open>Object.prototype\<close> yields that inherited property, a function or an object, which is
  truthy and is not a number.\<close>

definition notesTable :: "(string \<times> real) list" where
  "notesTable =
     [(''C'', 261.63), (''C#'', 277.18), (''D'', 293.66), (''D#'', 311.13),
      (''E'', 329.63), (''F'', 349.23), (''F#'', 369.99), (''G'', 392.00),
      (''G#'', 415.30), (''A'', 440.00), (''A#'', 466.16), (''B'', 493.88)]"

definition objectPrototypeKeys :: "string list" where
  "objectPrototypeKeys =
     [''constructor'', ''__defineGetter__'', ''__defineSetter__'', ''hasOwnProperty'',
      ''__lookupGetter__'', ''__lookupSetter__'', ''isPrototypeOf'',
      ''propertyIsEnumerable'', ''toString'', ''valueOf'', ''__proto__'',
      ''toLocaleString'']"

datatype noteEntry = OwnNumber real | Inherited | Undefined

definition notesGet :: "string \<Rightarrow> noteEntry" where
  "notesGet n =
     (case map_of notesTable n of
        Some v \<Rightarrow> OwnNumber v
      | None \<Rightarrow> if n \<in> set objectPrototypeKeys then Inherited else Undefined)"

text \<open>\<open>!this._notes[note]\<close>.\<close>

fun entryFalsy :: "noteEntry \<Rightarrow> bool" where
  "entryFalsy (OwnNumber v) = (v = 0)"
| "entryFalsy Inherited = False"
| "entryFalsy Undefined = True"

text \<open>\<open>this._notes[note] * Math.pow(2, o - 4)\<close>; an inherited property multiplies to
  \<open>NaN\<close>.\<close>

fun noteFrequency :: "noteEntry \<Rightarrow> int \<Rightarrow> number" where
  "noteFrequency (OwnNumber v) oc = mulN (Fin v) (powN (Fin 2) (Fin (real_of_int (oc - 4))))"
| "noteFrequency Inherited oc = NaN"
| "noteFrequency Undefined oc = NaN"

text \<open>The render cache \<open>_fileCache[soundIndex][octave - 1][note][duration]\<close>: an array
  of arrays of objects keyed by note name, each holding an object keyed by duration.\<close>

type_synonym durTable = "number \<rightharpoonup> buffer"
type_synonym noteList = "string \<rightharpoonup> durTable"

text \<open>The engine, with the two pieces of the runtime that its methods read and write
  besides their own fields: \<open>protoProps\<close>, the properties that have been set on the
  members of \<open>Object.prototype\<close> (by member name), and \<open>rand\<close>, the source of
  \<open>Math.random()\<close>. A buffer stored under the name \<open>__proto__\<close> lands on
  \<open>Object.prototype\<close> itself; it is recorded like the others, and what it would do to
  later property lookups on other objects is not followed. The debug flag only adds
  console output and is left out. Profile and modulation functions are taken to return
  normally (or to raise the type error of a missing slot), and the memory limits of the
  runtime are not modelled.\<close>

record synth =
  sampleRate :: int
  volume :: int
  sounds :: "profile list"
  modulate :: "modfn list"
  fileCache :: "noteList list list"
  temp :: vars
  protoProps :: "string \<Rightarrow> durTable"
  rand :: rng

definition bitsPerSample :: int where
  "bitsPerSample = 16"

definition channels :: int where
  "channels = 1"

text \<open>\<open>_resizeCache\<close>: one list of eight empty note objects is pushed for every sound
  the cache does not cover yet.\<close>

definition resizeCache :: "synth \<Rightarrow> synth" where
  "resizeCache st =
     st\<lparr>fileCache := fileCache st @
          replicate (length (sounds st) - length (fileCache st)) (replicate 8 Map.empty)\<rparr>"

definition clearCache :: "synth \<Rightarrow> synth" where
  "clearCache st = resizeCache (st\<lparr>fileCache := []\<rparr>)"

text \<open>\<open>new AudioSynth()\<close>.\<close>

definition newAudioSynth :: "rng \<Rightarrow> synth" where
  "newAudioSynth r =
     resizeCache \<lparr>sampleRate = 44100, volume = 32767, sounds = [], modulate = [baseMod],
                  fileCache = [], temp = emptyVars, protoProps = (\<lambda>k. Map.empty), rand = r\<rparr>"

text \<open>\<open>setSampleRate\<close>: \<open>Math.max(Math.min(sampleRate | 0, 44100), 4000)\<close>.\<close>

definition setSampleRate :: "number \<Rightarrow> synth \<Rightarrow> int \<times> synth" where
  "setSampleRate r st =
     (let st' = clearCache (st\<lparr>sampleRate := max (min (toInt32 r) 44100) 4000\<rparr>)
      in (sampleRate st', st'))"

definition getSampleRate :: "synth \<Rightarrow> int" where
  "getSampleRate st = sampleRate st"

text \<open>The integer that a finite whole number denotes.\<close>

fun intOf :: "number \<Rightarrow> int" where
  "intOf (Fin a) = \<lfloor>a\<rfloor>"
| "intOf x = 0"

text \<open>\<open>setVolume\<close>: \<open>parseFloat(String(volume))\<close> gives the number back;
  \<open>Math.round(Math.max(0, Math.min(1, isNaN(v) ? 0 : v)) * 32767)\<close>. The result is a
  finite integer.\<close>

definition setVolume :: "number \<Rightarrow> synth \<Rightarrow> int \<times> synth" where
  "setVolume v st =
     (let x = (case v of NaN \<Rightarrow> Fin 0 | Fin a \<Rightarrow> Fin a | PosInf \<Rightarrow> PosInf | NegInf \<Rightarrow> NegInf);
          st' = clearCache
                  (st\<lparr>volume := intOf (roundN (mulN (maxN (Fin 0) (minN (Fin 1) x)) (Fin 32767)))\<rparr>)
      in (volume st', st'))"

definition getVolume :: "synth \<Rightarrow> number" where
  "getVolume st =
     divN (roundN (mulN (divN (Fin (real_of_int (volume st))) (Fin 32767)) (Fin 10000))) (Fin 10000)"

definition loadSoundProfile :: "profile list \<Rightarrow> synth \<Rightarrow> synth" where
  "loadSoundProfile ps st = resizeCache (st\<lparr>sounds := sounds st @ ps\<rparr>)"

definition loadModulationFunction :: "modfn list \<Rightarrow> synth \<Rightarrow> synth" where
  "loadModulationFunction fs st = st\<lparr>modulate := modulate st @ fs\<rparr>"

definition listSounds :: "synth \<Rightarrow> string list" where
  "listSounds st = map name (sounds st)"

text \<open>A sound is asked for by name or by number.\<close>

datatype soundID = ByName string | ByIndex number

text \<open>\<open>findIndex\<close>: the first position whose element satisfies the predicate.\<close>

fun findIndex :: "('a \<Rightarrow> bool) \<Rightarrow> 'a list \<Rightarrow> nat option" where
  "findIndex P [] = None"
| "findIndex P (x # xs) = (if P x then Some 0 else map_option Suc (findIndex P xs))"

text \<open>\<open>_findSound\<close>; \<open>None\<close> stands for -1. A number finds a sound when
  \<open>this._sounds[sound]\<close> is there, that is when it is an index of the array.\<close>

fun findSound :: "synth \<Rightarrow> soundID \<Rightarrow> nat option" where
  "findSound st (ByName s) = findIndex (\<lambda>p. name p = s) (sounds st)"
| "findSound st (ByIndex (Fin a)) =
     (if isInt a \<and> 0 \<le> a \<and> nat \<lfloor>a\<rfloor> < length (sounds st) then Some (nat \<lfloor>a\<rfloor>) else None)"
| "findSound st (ByIndex x) = None"

text \<open>\<open>_createWav\<close>: the 44-byte header for the engine's settings, followed by the
  data.\<close>

definition createWav :: "synth \<Rightarrow> buffer \<Rightarrow> error + buffer" where
  "createWav st data =
     (let sr = real_of_int (sampleRate st); ch = real_of_int channels;
          bps = real_of_int bitsPerSample; dataLength = real (length data);
          b0 = writeStr ''RIFF'' 0 (alloc 44)
      in bindE (writeUInt32LE (36 + dataLength) 4 b0) (\<lambda>b1.
         bindE (writeUInt32LE 16 16 (writeStr ''fmt '' 12 (writeStr ''WAVE'' 8 b1))) (\<lambda>b2.
         bindE (writeUInt16LE 1 20 b2) (\<lambda>b3.
         bindE (writeUInt16LE ch 22 b3) (\<lambda>b4.
         bindE (writeUInt32LE sr 24 b4) (\<lambda>b5.
         bindE (writeUInt32LE (sr * ch * (bps / 8)) 28 b5) (\<lambda>b6.
         bindE (writeUInt16LE (ch * (bps / 8)) 32 b6) (\<lambda>b7.
         bindE (writeUInt16LE bps 34 b7) (\<lambda>b8.
         bindE (writeUInt32LE dataLength 40 (writeStr ''data'' 36 b8)) (\<lambda>b9.
         Inr (b9 @ data)))))))))))"

text \<open>Reading \<open>noteList[note]\<close>: the object's own entry, or else the member of
  \<open>Object.prototype\<close> of that name, whose properties are those recorded in
  \<open>protoProps\<close>.\<close>

definition noteListGet :: "(string \<Rightarrow> durTable) \<Rightarrow> noteList \<Rightarrow> string \<Rightarrow> durTable option" where
  "noteListGet pp nl n =
     (case nl n of
        Some dt \<Rightarrow> Some dt
      | None \<Rightarrow> if n \<in> set objectPrototypeKeys then Some (pp n) else None)"

text \<open>The cache lookup \<open>this._fileCache[soundID]?.[o - 1]?.[note]?.[d]\<close>.\<close>

definition cacheGet :: "synth \<Rightarrow> nat \<Rightarrow> int \<Rightarrow> string \<Rightarrow> number \<Rightarrow> buffer option" where
  "cacheGet st soundID oc n d =
     (if soundID < length (fileCache st)
      then (let ol = fileCache st ! soundID
            in if nat (oc - 1) < length ol
               then (case noteListGet (protoProps st) (ol ! nat (oc - 1)) n of
                       Some dt \<Rightarrow> dt d
                     | None \<Rightarrow> None)
               else None)
      else None)"

text \<open>The cache store at the end of \<open>generate\<close>. Where \<open>_fileCache[soundID]\<close> is missing
  the read of its element raises a type error. A missing octave slot is created (the
  array grows; the slots in between read as empty). Where \<open>noteList[note]\<close> is an
  inherited member, it is truthy, no own entry is made, and the buffer is stored as a
  property of that member.\<close>

definition cachePut :: "synth \<Rightarrow> nat \<Rightarrow> int \<Rightarrow> string \<Rightarrow> number \<Rightarrow> buffer \<Rightarrow> error + synth" where
  "cachePut st soundID oc n d buf =
     (if length (fileCache st) \<le> soundID then Inl TypeError
      else (let ol = fileCache st ! soundID; k = nat (oc - 1);
                ol1 = (if k < length ol then ol
                       else ol @ replicate (k - length ol) Map.empty @ [Map.empty]);
                nl = ol1 ! k
            in case nl n of
                 Some dt \<Rightarrow>
                   Inr (st\<lparr>fileCache := (fileCache st)[soundID := ol1[k := nl(n \<mapsto> dt(d \<mapsto> buf))]]\<rparr>)
               | None \<Rightarrow>
                   if n \<in> set objectPrototypeKeys
                   then Inr (st\<lparr>fileCache := (fileCache st)[soundID := ol1],
                                protoProps := (protoProps st)(n := (protoProps st n)(d \<mapsto> buf))\<rparr>)
                   else Inr (st\<lparr>fileCache :=
                                  (fileCache st)[soundID := ol1[k := nl(n \<mapsto> Map.empty(d \<mapsto> buf))]]\<rparr>)))"

text \<open>\<open>data[i] = val | 0\<close> on an \<open>Int16Array\<close>: ToInt32, then the low 16 bits.\<close>

definition toInt16 :: "number \<Rightarrow> 16 word" where
  "toInt16 v = word_of_int (toInt32 v)"

text \<open>One envelope loop: for each index in turn the wave function is called, the sample
  is the envelope times its value, and the store into the typed array is dropped when the
  index is outside it. The result is \<open>None\<close> where the wave function raised.\<close>

fun renderLoop ::
  "(nat \<Rightarrow> number) \<Rightarrow> (wstate \<Rightarrow> nat \<Rightarrow> (number \<times> wstate) option) \<Rightarrow> nat list \<Rightarrow>
   16 word list \<Rightarrow> wstate \<Rightarrow> 16 word list option \<times> wstate" where
  "renderLoop env wv [] data ws = (Some data, ws)"
| "renderLoop env wv (i # is) data ws =
     (case wv ws i of
        None \<Rightarrow> (None, ws)
      | Some (w, ws') \<Rightarrow> renderLoop env wv is (data[i := toInt16 (mulN (env i) w)]) ws')"

text \<open>\<open>Buffer.from(data.buffer)\<close>: the samples as bytes in the byte order of the
  platform, taken to be little-endian (low byte first).\<close>

definition int16Bytes :: "16 word list \<Rightarrow> buffer" where
  "int16Bytes ws = concat (map (\<lambda>w. [ucast w, ucast (drop_bit 8 w)]) ws)"

text \<open>The envelopes of the two loops: \<open>volume * (i / (sampleRate * attack))\<close> and
  \<open>volume * Math.pow(1 - (i - attackLen) / (sampleRate * (d - attack)), dampen)\<close>.\<close>

definition attackEnv :: "int \<Rightarrow> int \<Rightarrow> number \<Rightarrow> nat \<Rightarrow> number" where
  "attackEnv vol sr att i =
     mulN (Fin (real_of_int vol)) (divN (Fin (real i)) (mulN (Fin (real_of_int sr)) att))"

definition decayEnv :: "int \<Rightarrow> int \<Rightarrow> number \<Rightarrow> number \<Rightarrow> number \<Rightarrow> int \<Rightarrow> nat \<Rightarrow> number" where
  "decayEnv vol sr att d damp attackLen i =
     mulN (Fin (real_of_int vol))
          (powN (subN (Fin 1)
                      (divN (Fin (real i - real_of_int attackLen))
                            (mulN (Fin (real_of_int sr)) (subN d att))))
                damp)"

text \<open>The part of \<open>generate\<close> that runs on a cache miss, from the reading of the
  settings to \<open>_createWav\<close>. A negative size makes \<open>new ArrayBuffer\<close> raise a range
  error. After the attack loop the index stands at \<open>attackLen\<close>, or at 0 when
  \<open>attackLen\<close> is negative.\<close>

definition render :: "synth \<Rightarrow> profile \<Rightarrow> number \<Rightarrow> number \<Rightarrow> (error + buffer) \<times> synth" where
  "render st thisSound frequency d =
     (let sr = sampleRate st; vol = volume st;
          att = attack thisSound sr frequency vol;
          damp = dampen thisSound sr frequency vol;
          wv = (\<lambda>ws i. wave thisSound (modulate st) ws i sr frequency vol);
          attackLen = toInt32 (mulN (Fin (real_of_int sr)) att);
          decayLen = toInt32 (mulN (Fin (real_of_int sr)) d);
          dataSize = \<lceil>real_of_int decayLen * real_of_int channels * (real_of_int bitsPerSample / 8)\<rceil>
      in if dataSize < 0 then (Inl RangeError, st)
         else (let data0 = replicate (nat (dataSize div 2)) 0;
                   (r1, ws1) = renderLoop (attackEnv vol sr att) wv [0..<nat attackLen] data0
                                 (temp st, rand st)
               in case r1 of
                    None \<Rightarrow> (Inl TypeError, st\<lparr>temp := fst ws1, rand := snd ws1\<rparr>)
                  | Some data1 \<Rightarrow>
                      (let (r2, ws2) = renderLoop (decayEnv vol sr att d damp attackLen) wv
                                         [nat attackLen..<nat decayLen] data1 ws1;
                           st2 = st\<lparr>temp := fst ws2, rand := snd ws2\<rparr>
                       in case r2 of
                            None \<Rightarrow> (Inl TypeError, st2)
                          | Some data2 \<Rightarrow> (createWav st (int16Bytes data2), st2))))"

text \<open>\<open>generate(sound, note, octave, duration)\<close>.\<close>

definition generate ::
  "soundID \<Rightarrow> string \<Rightarrow> number \<Rightarrow> number \<Rightarrow> synth \<Rightarrow> (error + buffer) \<times> synth" where
  "generate sound n octave duration st =
     (case findSound st sound of
        None \<Rightarrow> (Inl InvalidSound, st)
      | Some soundID \<Rightarrow>
          (let thisSound = sounds st ! soundID;
               st1 = st\<lparr>temp := emptyVars\<rparr>;
               oc = min 8 (max 1 (toInt32 octave));
               d = (if falsy duration then Fin 2 else duration);
               entry = notesGet n
           in if entryFalsy entry then (Inl InvalidNote, st1)
              else case cacheGet st1 soundID oc n d of
                     Some cached \<Rightarrow> (Inr cached, st1)
                   | None \<Rightarrow>
                       (case render st1 thisSound (noteFrequency entry oc) d of
                          (Inl e, st2) \<Rightarrow> (Inl e, st2)
                        | (Inr wavBuffer, st2) \<Rightarrow>
                            (case cachePut st2 soundID oc n d wavBuffer of
                               Inl e \<Rightarrow> (Inl e, st2)
                             | Inr st3 \<Rightarrow> (Inr wavBuffer, st3)))))"




text \<open>The singleton \<open>Synth\<close>: a new engine with the ten modulation functions and the four
  profiles loaded.\<close>

definition Synth :: "rng \<Rightarrow> synth" where
  "Synth r =
     loadSoundProfile [piano, organ, acoustic, edm]
       (loadModulationFunction loadedMods (newAudioSynth r))"

section \<open>The timeline assembler\<close>

text \<open>A note of the timeline (the field \<open>note\<close> is \<open>noteName\<close> here). The start time
  may be absent. Start times that are present
  are taken to be finite, so that the comparator \<open>(a.time ?? 0) - (b.time ?? 0)\<close> is a
  consistent order and \<open>sort\<close>, which is stable, arranges the notes by that key.\<close>

record synthNote =
  noteName :: string
  octave :: number
  duration :: number
  time :: "real option"





section \<open>Auxiliary definitions for the statements\<close>

text \<open>A fixed random source for the concrete scenarios: eight draws of 0.9, then 0.1.\<close>

definition rngStep :: rng where
  "rngStep n = (if n < 8 then 9 / 10 else 1 / 10)"

text \<open>The ranges the setters establish, and the cache covering every loaded sound.\<close>

definition wellFormed :: "synth \<Rightarrow> bool" where
  "wellFormed st =
     (4000 \<le> sampleRate st \<and> sampleRate st \<le> 44100 \<and> 0 \<le> volume st \<and> volume st \<le> 32767
      \<and> length (sounds st) \<le> length (fileCache st))"

text \<open>Two engines have the same configuration when they agree on the sample rate, the
  volume, the loaded profiles and the modulation functions.\<close>

definition sameConfig :: "synth \<Rightarrow> synth \<Rightarrow> bool" where
  "sameConfig st st' =
     (sampleRate st' = sampleRate st \<and> volume st' = volume st \<and> sounds st' = sounds st
      \<and> modulate st' = modulate st)"

text \<open>A wave function is stateless when the value it returns does not depend on the
  scratch state or on the random source.\<close>

definition statelessWave :: "wavefn \<Rightarrow> bool" where
  "statelessWave w =
     (\<forall>ms ws ws' i sr f vol. map_option fst (w ms ws i sr f vol) = map_option fst (w ms ws' i sr f vol))"

text \<open>A scenario for the acoustic profile: the engine set to 4000 Hz, a C4 of one
  millisecond rendered, the volume set again to full (which clears the cache and leaves
  both settings as they were), and the same note rendered once more.\<close>

definition lowRateSynth :: synth where
  "lowRateSynth = snd (setSampleRate (Fin 4000) (Synth rngStep))"

definition acousticShort :: "synth \<Rightarrow> (error + buffer) \<times> synth" where
  "acousticShort st = generate (ByName ''acoustic'') ''C'' (Fin 4) (Fin 0.001) st"

definition reclearedSynth :: synth where
  "reclearedSynth = snd (setVolume (Fin 1) (snd (acousticShort lowRateSynth)))"

text \<open>The loaded engine after one render of a piano C4 of one second.\<close>

definition pianoCached :: synth where
  "pianoCached = snd (generate (ByName ''piano'') ''C'' (Fin 4) (Fin 1) (Synth rngStep))"


section \<open>The container codec: lemmas\<close>



lemma length_writeAt [simp]: "length (writeAt buf off bs) = length buf"
  by (induction bs arbitrary: buf off) simp_all

lemma length_leBytes [simp]: "length (leBytes k v) = k"
  by (induction k arbitrary: v) simp_all

lemma decodeLE_leBytes: "decodeLE (leBytes k v) = v mod 256 ^ k"
proof (induction k arbitrary: v)
  case 0
  show ?case by simp
next
  case (Suc k)
  have "decodeLE (leBytes (Suc k) v) = v mod 256 + 256 * ((v div 256) mod 256 ^ k)"
    by (simp add: Suc.IH unat_of_nat)
  also have "\<dots> = v mod (256 * 256 ^ k)"
    by (simp add: mod_mult2_eq)
  finally show ?case by simp
qed

lemma writeAt_eq:
  "off + length bs \<le> length buf \<Longrightarrow>
   writeAt buf off bs = take off buf @ bs @ drop (off + length bs) buf"
proof (induction bs arbitrary: buf off)
  case Nil
  then show ?case by simp
next
  case (Cons b bs)
  have lt: "off < length buf" using Cons.prems by simp
  have "writeAt (b0 # bs0) off0 [] = b0 # bs0" for b0 bs0 off0 by simp
  have "writeAt buf off (b # bs) = writeAt (buf[off := b]) (Suc off) bs" by simp
  also have "\<dots> = take (Suc off) (buf[off := b]) @ bs @ drop (Suc off + length bs) (buf[off := b])"
    using Cons.prems by (intro Cons.IH) simp
  also have "take (Suc off) (buf[off := b]) = take off buf @ [b]"
    using lt by (simp add: take_Suc_conv_app_nth)
  also have "drop (Suc off + length bs) (buf[off := b]) = drop (off + length (b # bs)) buf"
    by simp
  finally show ?case by simp
qed

lemma field_writeAt_same:
  "off + length bs \<le> length buf \<Longrightarrow> take (length bs) (drop off (writeAt buf off bs)) = bs"
  by (simp add: writeAt_eq)

lemma field_writeAt_other:
  assumes "off + length bs \<le> length buf" and "a + k \<le> off"
  shows "take k (drop a (writeAt buf off bs)) = take k (drop a buf)"
proof -
  have "take k (drop a (writeAt buf off bs)) = take k (drop a (take off buf))"
    using assms by (simp add: writeAt_eq)
  also have "\<dots> = take k (take (off - a) (drop a buf))"
    by (simp add: drop_take)
  also have "\<dots> = take k (drop a buf)"
    using assms by (simp add: min_def)
  finally show ?thesis .
qed

lemma field_writeAt_last:
  "off + length bs = length buf \<Longrightarrow> drop off (writeAt buf off bs) = bs"
  by (simp add: writeAt_eq)

lemma length_writeStr [simp]: "length (writeStr s off buf) = length buf"
  by (simp add: writeStr_def)

lemma length_alloc [simp]: "length (alloc n) = n"
  by (simp add: alloc_def)

lemma field_writeAt_same':
  "length bs = k \<Longrightarrow> off + k \<le> length buf \<Longrightarrow> take k (drop off (writeAt buf off bs)) = bs"
  by (simp add: writeAt_eq)

lemma field_writeStr_other:
  "off + length s \<le> length buf \<Longrightarrow> a + k \<le> off \<Longrightarrow>
   take k (drop a (writeStr s off buf)) = take k (drop a buf)"
  by (simp add: writeStr_def field_writeAt_other)

lemma createWavHeader_ok:
  assumes "36 + length pcm \<le> 4294967295"
  shows "\<exists>h. createWavHeader (real (length pcm)) 44100 1 16 = Inr h \<and> length h = 44
           \<and> readUInt32LE h 40 = length pcm \<and> readUInt32LE h 4 = 36 + length pcm"
  using assms
  by (simp add: createWavHeader_def Let_def bindE_def writeUInt32LE_def writeUInt16LE_def
      readUInt32LE_def field_writeAt_same' field_writeAt_other
      field_writeStr_other field_writeAt_last decodeLE_leBytes nat_add_distrib)

lemma createWav_ok:
  assumes "0 \<le> sampleRate st" and "sampleRate st \<le> 2147483647"
    and "36 + length pcm \<le> 4294967295"
  shows "\<exists>h. createWav st pcm = Inr (h @ pcm) \<and> length h = 44
           \<and> readUInt32LE h 40 = length pcm \<and> readUInt32LE h 4 = 36 + length pcm"
  using assms
  by (simp add: createWav_def channels_def bitsPerSample_def Let_def bindE_def
      writeUInt32LE_def writeUInt16LE_def
      readUInt32LE_def field_writeAt_same' field_writeAt_other
      field_writeStr_other field_writeAt_last decodeLE_leBytes nat_add_distrib)

text \<open>
  Claim C2, as amended. For every PCM byte sequence of length \<open>L\<close> with \<open>36 + L\<close> below
  \<open>2^32\<close>, the 44-byte header built for \<open>L\<close> has \<open>L\<close> in its data-length field
  (bytes 40 to 43, little-endian) and \<open>36 + L\<close> in its RIFF size field (bytes 4 to 7),
  and stripping the header from header followed by data gives the data back. The same
  holds for the header that the engine's \<open>_createWav\<close> puts in front of the data.
\<close>

theorem wav_header_roundtrip:
  assumes "36 + length pcm \<le> 4294967295"
  shows "(\<exists>h. createWavHeader (real (length pcm)) 44100 1 16 = Inr h \<and> length h = 44
            \<and> readUInt32LE h 40 = length pcm \<and> readUInt32LE h 4 = 36 + length pcm
            \<and> extractPCM (h @ pcm) = pcm)
       \<and> (0 \<le> sampleRate st \<and> sampleRate st \<le> 2147483647 \<longrightarrow>
           (\<exists>h. createWav st pcm = Inr (h @ pcm) \<and> length h = 44
              \<and> readUInt32LE h 40 = length pcm \<and> readUInt32LE h 4 = 36 + length pcm
              \<and> extractPCM (h @ pcm) = pcm))"
proof -
  have "\<exists>h. createWavHeader (real (length pcm)) 44100 1 16 = Inr h \<and> length h = 44
            \<and> readUInt32LE h 40 = length pcm \<and> readUInt32LE h 4 = 36 + length pcm
            \<and> extractPCM (h @ pcm) = pcm"
    using createWavHeader_ok [OF assms] by (auto simp: extractPCM_def)
  moreover have "\<exists>h. createWav st pcm = Inr (h @ pcm) \<and> length h = 44
              \<and> readUInt32LE h 40 = length pcm \<and> readUInt32LE h 4 = 36 + length pcm
              \<and> extractPCM (h @ pcm) = pcm"
    if "0 \<le> sampleRate st" "sampleRate st \<le> 2147483647"
    using createWav_ok [OF that assms] by (auto simp: extractPCM_def)
  ultimately show ?thesis by blast
qed

theorem wav_header_roundtrip_witness:
  "36 + length [1, 2 :: byte] \<le> 4294967295
   \<and> (\<exists>h. createWavHeader (real (length [1, 2 :: byte])) 44100 1 16 = Inr h \<and> length h = 44
          \<and> readUInt32LE h 40 = 2 \<and> readUInt32LE h 4 = 38 \<and> extractPCM (h @ [1, 2]) = [1, 2])
   \<and> (\<exists>h. createWav (Synth rngStep) [1, 2] = Inr (h @ [1, 2]) \<and> length h = 44)"
proof -
  have sr: "sampleRate (Synth rngStep) = 44100"
    by (simp add: Synth_def loadSoundProfile_def loadModulationFunction_def newAudioSynth_def
        resizeCache_def)
  have h: "36 + length [1, 2 :: byte] \<le> 4294967295" by simp
  from wav_header_roundtrip [OF h, of "Synth rngStep"] sr show ?thesis by auto
qed

text \<open>
  Claim C2 as stated fails for large \<open>L\<close>: for \<open>L = 2^32 - 36\<close> the RIFF size does not fit
  into its 32-bit field, the write raises a range error and no header is built.
\<close>

theorem wav_header_overflow:
  "createWavHeader 4294967260 44100 1 16 = Inl RangeError"
  by (simp add: createWavHeader_def Let_def bindE_def writeUInt32LE_def)

section \<open>The engine settings: lemmas\<close>

lemma wrapInt32_id:
  assumes "- 2147483648 \<le> n" and "n < 2147483648"
  shows "wrapInt32 n = n"
proof (cases "0 \<le> n")
  case True
  then have "n mod 4294967296 = n" using assms by simp
  then show ?thesis using assms by (simp add: wrapInt32_def Let_def)
next
  case False
  have "n mod 4294967296 = (n + 4294967296) mod 4294967296" by simp
  also have "\<dots> = n + 4294967296" using assms False by (intro mod_pos_pos_trivial) simp_all
  finally show ?thesis using False assms by (simp add: wrapInt32_def Let_def)
qed

lemma wrapInt32_range: "- 2147483648 \<le> wrapInt32 n \<and> wrapInt32 n < 2147483648"
proof -
  define m where "m = n mod 4294967296"
  have a: "0 \<le> m" and b: "m < 4294967296" by (simp_all add: m_def)
  have "wrapInt32 n = (if 2147483648 \<le> m then m - 4294967296 else m)"
    by (simp add: wrapInt32_def Let_def m_def)
  then show ?thesis using a b by simp
qed

lemma truncR_range:
  assumes "- 2147483649 < a" and "a < 2147483648"
  shows "- 2147483648 \<le> truncR a \<and> truncR a < 2147483648"
proof (cases "0 \<le> a")
  case True
  then show ?thesis using assms by (simp add: truncR_def floor_less_iff)
next
  case False
  then have "a < 0" by simp
  then have "\<lceil>a\<rceil> \<le> 0" by (simp add: ceiling_le_iff)
  moreover have "- 2147483649 < \<lceil>a\<rceil>" using assms(1) by (simp add: less_ceiling_iff)
  ultimately show ?thesis using False by (simp add: truncR_def)
qed

lemma sampleRate_clearCache [simp]: "sampleRate (clearCache st) = sampleRate st"
  by (simp add: clearCache_def resizeCache_def)

text \<open>
  Claim C10, as amended. For every finite number \<open>r\<close> whose truncation is a signed 32-bit
  integer (\<open>-2^31 - 1 < r < 2^31\<close>), \<open>setSampleRate(r)\<close> sets the engine sample rate to
  \<open>min(max(truncate(r), 4000), 44100)\<close> and returns the value it has set.
\<close>

theorem setSampleRate_clamps:
  assumes "- 2147483649 < a" and "a < 2147483648"
  shows "fst (setSampleRate (Fin a) st) = min (max (truncR a) 4000) 44100
         \<and> sampleRate (snd (setSampleRate (Fin a) st)) = fst (setSampleRate (Fin a) st)"
  using truncR_range [OF assms]
  by (simp add: setSampleRate_def Let_def wrapInt32_id)

theorem setSampleRate_clamps_witness:
  "- 2147483649 < (80007 / 10 :: real) \<and> (80007 / 10 :: real) < 2147483648
   \<and> fst (setSampleRate (Fin (80007 / 10)) (Synth rngStep)) = 8000
   \<and> sampleRate (snd (setSampleRate (Fin (80007 / 10)) (Synth rngStep))) = 8000"
proof -
  have a: "- 2147483649 < (80007 / 10 :: real)" and b: "(80007 / 10 :: real) < 2147483648"
    by simp_all
  have "truncR (80007 / 10) = 8000" by (simp add: truncR_def)
  with setSampleRate_clamps [OF a b, of "Synth rngStep"] a b show ?thesis by simp
qed

text \<open>
  Claim C10 as stated fails outside that range: \<open>r | 0\<close> wraps modulo \<open>2^32\<close>, so the
  request \<open>2^31\<close> becomes \<open>-2^31\<close> and the rate is set to 4000, not to 44100.
\<close>

theorem setSampleRate_wraps:
  "fst (setSampleRate (Fin 2147483648) (Synth rngStep)) = 4000
   \<and> min (max (truncR 2147483648) 4000) 44100 = (44100 :: int)"
  by (simp add: setSampleRate_def Let_def wrapInt32_def truncR_def)

section \<open>The engine: state, cache and render lemmas\<close>


lemma Synth_fields:
  "sampleRate (Synth r) = 44100" "volume (Synth r) = 32767"
  "sounds (Synth r) = [piano, organ, acoustic, edm]"
  "modulate (Synth r) = baseMod # loadedMods"
  "fileCache (Synth r) = replicate 4 (replicate 8 Map.empty)"
  "temp (Synth r) = emptyVars" "rand (Synth r) = r"
  "protoProps (Synth r) = (\<lambda>k. Map.empty)"
  by (simp_all add: Synth_def loadSoundProfile_def loadModulationFunction_def newAudioSynth_def
      resizeCache_def numeral_eq_Suc)

lemma clearCache_fields:
  "fileCache (clearCache st) = replicate (length (sounds st)) (replicate 8 Map.empty)"
  "sounds (clearCache st) = sounds st" "volume (clearCache st) = volume st"
  "modulate (clearCache st) = modulate st" "temp (clearCache st) = temp st"
  "rand (clearCache st) = rand st" "protoProps (clearCache st) = protoProps st"
  by (simp_all add: clearCache_def resizeCache_def)

lemma own_note_not_inherited:
  "map_of notesTable n = Some v \<Longrightarrow> n \<notin> set objectPrototypeKeys"
  by (auto simp: notesTable_def objectPrototypeKeys_def split: if_splits)

lemma own_note_truthy:
  "map_of notesTable n = Some v \<Longrightarrow> notesGet n = OwnNumber v \<and> v \<noteq> 0"
  by (auto simp: notesGet_def notesTable_def split: if_splits)

lemma cacheGet_cleared:
  assumes "fileCache st = replicate m (replicate 8 Map.empty)"
    and "n \<notin> set objectPrototypeKeys"
  shows "cacheGet st k oc n d = None"
  using assms by (simp add: cacheGet_def noteListGet_def Let_def)

lemma cacheGet_temp [simp]: "cacheGet (st\<lparr>temp := x\<rparr>) k oc n d = cacheGet st k oc n d"
  by (simp add: cacheGet_def Let_def)

lemma cachePut_get:
  assumes "cachePut st k oc n d buf = Inr st'"
  shows "cacheGet st' k oc n d = Some buf"
  using assms
  by (auto simp: cachePut_def cacheGet_def noteListGet_def Let_def nth_append
      split: if_splits option.splits)

lemma cachePut_fields:
  assumes "cachePut st k oc n d buf = Inr st'"
  shows "sounds st' = sounds st" "sampleRate st' = sampleRate st" "volume st' = volume st"
    "modulate st' = modulate st" "temp st' = temp st" "rand st' = rand st"
    "length (fileCache st') = length (fileCache st)"
  using assms
  by (auto simp: cachePut_def Let_def split: if_splits option.splits)

lemma cachePut_ok:
  "k < length (fileCache st) \<Longrightarrow> \<exists>st'. cachePut st k oc n d buf = Inr st'"
  by (simp add: cachePut_def Let_def split: option.splits)

lemma findSound_cong: "sounds st' = sounds st \<Longrightarrow> findSound st' s = findSound st s"
  by (cases s; cases "case s of ByIndex x \<Rightarrow> x | _ \<Rightarrow> NaN") (auto split: soundID.splits)

lemma findIndex_lt: "findIndex P xs = Some k \<Longrightarrow> k < length xs"
  by (induction xs arbitrary: k) (auto split: if_splits)

lemma findSound_lt: "findSound st s = Some k \<Longrightarrow> k < length (sounds st)"
  by (cases s; cases "case s of ByIndex x \<Rightarrow> x | _ \<Rightarrow> NaN")
     (auto split: soundID.splits if_splits dest: findIndex_lt)

lemma render_fields:
  "sounds (snd (render st p f d)) = sounds st"
  "sampleRate (snd (render st p f d)) = sampleRate st"
  "volume (snd (render st p f d)) = volume st"
  "modulate (snd (render st p f d)) = modulate st"
  "fileCache (snd (render st p f d)) = fileCache st"
  "protoProps (snd (render st p f d)) = protoProps st"
  by (simp_all add: render_def Let_def split: prod.splits option.splits)


lemma renderLoop_total:
  assumes "\<forall>ws i. wv ws i \<noteq> None"
  shows "\<exists>data' ws'. renderLoop env wv idxs data ws = (Some data', ws') \<and> length data' = length data"
proof (induction idxs arbitrary: data ws)
  case Nil
  show ?case by simp
next
  case (Cons i idxs)
  from assms have "wv ws i \<noteq> None" by blast
  then obtain w ws1 where w: "wv ws i = Some (w, ws1)"
    by (cases "wv ws i") auto
  from Cons.IH [of "data[i := toInt16 (mulN (env i) w)]" ws1] w show ?case by simp
qed

lemma length_int16Bytes [simp]: "length (int16Bytes ws) = 2 * length ws"
  by (induction ws) (simp_all add: int16Bytes_def)

lemma dataSize_eq:
  "\<lceil>real_of_int n * real_of_int channels * (real_of_int bitsPerSample / 8)\<rceil> = 2 * n"
proof -
  have "real_of_int n * real_of_int channels * (real_of_int bitsPerSample / 8) = of_int (2 * n)"
    by (simp add: channels_def bitsPerSample_def)
  then show ?thesis by (simp only: ceiling_of_int)
qed

lemma render_unfold:
  "render st p f d =
     (let sr = sampleRate st; vol = volume st;
          att = attack p sr f vol; damp = dampen p sr f vol;
          wv = (\<lambda>ws i. wave p (modulate st) ws i sr f vol);
          attackLen = toInt32 (mulN (Fin (real_of_int sr)) att);
          decayLen = toInt32 (mulN (Fin (real_of_int sr)) d)
      in if decayLen < 0 then (Inl RangeError, st)
         else case renderLoop (attackEnv vol sr att) wv [0..<nat attackLen]
                     (replicate (nat decayLen) 0) (temp st, rand st) of
                (None, ws1) \<Rightarrow> (Inl TypeError, st\<lparr>temp := fst ws1, rand := snd ws1\<rparr>)
              | (Some data1, ws1) \<Rightarrow>
                  (case renderLoop (decayEnv vol sr att d damp attackLen) wv
                          [nat attackLen..<nat decayLen] data1 ws1 of
                     (None, ws2) \<Rightarrow> (Inl TypeError, st\<lparr>temp := fst ws2, rand := snd ws2\<rparr>)
                   | (Some data2, ws2) \<Rightarrow>
                       (createWav st (int16Bytes data2), st\<lparr>temp := fst ws2, rand := snd ws2\<rparr>)))"
  unfolding render_def dataSize_eq Let_def
  by (simp split: prod.splits option.splits)

lemma render_ok:
  assumes sr: "0 \<le> sampleRate st" "sampleRate st \<le> 2147483647"
    and total: "\<forall>ws i. wave p (modulate st) ws i (sampleRate st) f (volume st) \<noteq> None"
    and len: "0 \<le> toInt32 (mulN (Fin (real_of_int (sampleRate st))) d)"
             "toInt32 (mulN (Fin (real_of_int (sampleRate st))) d) \<le> 2147483629"
  shows "\<exists>h pcm. fst (render st p f d) = Inr (h @ pcm) \<and> length h = 44
           \<and> length pcm = 2 * nat (toInt32 (mulN (Fin (real_of_int (sampleRate st))) d))"
proof -
  define decayLen where "decayLen = toInt32 (mulN (Fin (real_of_int (sampleRate st))) d)"
  define attackLen where
    "attackLen = toInt32 (mulN (Fin (real_of_int (sampleRate st)))
                   (attack p (sampleRate st) f (volume st)))"
  define wv where "wv = (\<lambda>ws i. wave p (modulate st) ws i (sampleRate st) f (volume st))"
  define env1 where "env1 = attackEnv (volume st) (sampleRate st) (attack p (sampleRate st) f (volume st))"
  define env2 where "env2 = decayEnv (volume st) (sampleRate st)
     (attack p (sampleRate st) f (volume st)) d (dampen p (sampleRate st) f (volume st)) attackLen"
  have tot: "\<forall>ws i. wv ws i \<noteq> None" using total by (simp add: wv_def)
  obtain d1 ws1 where l1:
    "renderLoop env1 wv [0..<nat attackLen] (replicate (nat decayLen) 0) (temp st, rand st)
       = (Some d1, ws1)" and n1: "length d1 = nat decayLen"
    using renderLoop_total [OF tot, where env = env1 and idxs = "[0..<nat attackLen]"
        and data = "replicate (nat decayLen) 0" and ws = "(temp st, rand st)"] by auto
  obtain d2 ws2 where l2:
    "renderLoop env2 wv [nat attackLen..<nat decayLen] d1 ws1 = (Some d2, ws2)"
    and n2: "length d2 = length d1"
    using renderLoop_total [OF tot, where env = env2 and idxs = "[nat attackLen..<nat decayLen]"
        and data = d1 and ws = ws1] by auto
  have fit: "36 + length (int16Bytes d2) \<le> 4294967295"
    using len n1 n2 by (simp add: decayLen_def)
  obtain h where h: "createWav st (int16Bytes d2) = Inr (h @ int16Bytes d2)" "length h = 44"
    using createWav_ok [OF sr fit] by auto
  have "fst (render st p f d) = Inr (h @ int16Bytes d2)"
    unfolding render_unfold Let_def
    unfolding decayLen_def [symmetric] attackLen_def [symmetric] wv_def [symmetric]
      env1_def [symmetric] env2_def [symmetric]
    using len l1 l2 h by (simp add: decayLen_def)
  then show ?thesis using h n1 n2
    by (intro exI [of _ h] exI [of _ "int16Bytes d2"]) (simp add: decayLen_def)
qed

lemma generate_unfold:
  assumes "findSound st s = Some k"
  shows "generate s n octv dur st =
     (let st1 = st\<lparr>temp := emptyVars\<rparr>;
          oc = min 8 (max 1 (toInt32 octv));
          d = (if falsy dur then Fin 2 else dur)
      in if entryFalsy (notesGet n) then (Inl InvalidNote, st1)
         else case cacheGet st k oc n d of
                Some cached \<Rightarrow> (Inr cached, st1)
              | None \<Rightarrow>
                  (case render st1 (sounds st ! k) (noteFrequency (notesGet n) oc) d of
                     (Inl e, st2) \<Rightarrow> (Inl e, st2)
                   | (Inr wavBuffer, st2) \<Rightarrow>
                       (case cachePut st2 k oc n d wavBuffer of
                          Inl e \<Rightarrow> (Inl e, st2)
                        | Inr st3 \<Rightarrow> (Inr wavBuffer, st3))))"
  using assms by (simp add: generate_def Let_def)

lemma generate_sounds: "sounds (snd (generate s n octv dur st)) = sounds st"
proof (cases "findSound st s")
  case None
  then show ?thesis by (simp add: generate_def)
next
  case (Some k)
  define oc where "oc = min 8 (max 1 (toInt32 octv))"
  define d where "d = (if falsy dur then Fin 2 else dur)"
  define st1 where "st1 = st\<lparr>temp := emptyVars\<rparr>"
  define p where "p = sounds st ! k"
  define f where "f = noteFrequency (notesGet n) oc"
  have g: "generate s n octv dur st =
     (if entryFalsy (notesGet n) then (Inl InvalidNote, st1)
      else case cacheGet st k oc n d of
             Some cached \<Rightarrow> (Inr cached, st1)
           | None \<Rightarrow>
               (case render st1 p f d of
                  (Inl e, st2) \<Rightarrow> (Inl e, st2)
                | (Inr wavBuffer, st2) \<Rightarrow>
                    (case cachePut st2 k oc n d wavBuffer of
                       Inl e \<Rightarrow> (Inl e, st2)
                     | Inr st3 \<Rightarrow> (Inr wavBuffer, st3))))"
    unfolding generate_unfold [OF Some] Let_def oc_def d_def st1_def p_def f_def ..
  obtain r st2 where rr: "render st1 p f d = (r, st2)" by (cases "render st1 p f d")
  have s2: "sounds st2 = sounds st"
    using render_fields(1) [of st1 p f d] rr by (simp add: st1_def)
  show ?thesis
  proof (cases "entryFalsy (notesGet n)")
    case True
    then show ?thesis by (simp add: g st1_def)
  next
    case False
    show ?thesis
    proof (cases "cacheGet st k oc n d")
      case (Some cached)
      then show ?thesis using False by (simp add: g st1_def)
    next
      case None
      show ?thesis
      proof (cases r)
        case (Inl e)
        then show ?thesis using False None rr s2 by (simp add: g)
      next
        case (Inr w)
        show ?thesis
        proof (cases "cachePut st2 k oc n d w")
          case (Inl e)
          then show ?thesis using False None rr s2 Inr by (simp add: g)
        next
          case st3: (Inr st3)
          then show ?thesis using False None rr s2 Inr cachePut_fields(1) [OF st3]
            by (simp add: g)
        qed
      qed
    qed
  qed
qed

lemma generate_twice:
  assumes "generate s n octv dur st = (Inr buf, st1)"
  shows "generate s n octv dur st1 = (Inr buf, st1\<lparr>temp := emptyVars\<rparr>)"
proof (cases "findSound st s")
  case None
  then show ?thesis using assms by (simp add: generate_def)
next
  case (Some k)
  define oc where "oc = min 8 (max 1 (toInt32 octv))"
  define d where "d = (if falsy dur then Fin 2 else dur)"
  have snd1: "sounds st1 = sounds st"
    using generate_sounds [of s n octv dur st] assms by simp
  have fs: "findSound st1 s = Some k" using Some findSound_cong [OF snd1] by simp
  have nf: "\<not> entryFalsy (notesGet n)"
    using assms unfolding generate_unfold [OF Some] Let_def by (auto split: if_splits)
  have hit: "cacheGet st1 k oc n d = Some buf"
  proof (cases "cacheGet st k oc n d")
    case (Some cached)
    then show ?thesis
      using assms nf unfolding generate_unfold [OF \<open>findSound st s = Some k\<close>] Let_def
      by (auto simp: oc_def d_def)
  next
    case None
    then obtain st2 where "cachePut st2 k oc n d buf = Inr st1"
      using assms nf unfolding generate_unfold [OF \<open>findSound st s = Some k\<close>] Let_def
      by (auto simp: oc_def d_def split: prod.splits sum.splits)
    then show ?thesis by (rule cachePut_get)
  qed
  show ?thesis
    unfolding generate_unfold [OF fs] Let_def
    using nf hit by (simp add: oc_def d_def)
qed

section \<open>The piano wave\<close>


lemma powN_square: "powN (Fin y) (Fin 2) = Fin (y\<^sup>2)"
proof -
  have "isInt 2" by (simp add: isInt_def)
  moreover have "\<bar>y\<bar> powr 2 = y\<^sup>2" if "y \<noteq> 0" using that by (simp add: powr_numeral)
  moreover have "y powr 2 = y\<^sup>2" if "0 < y" using that by (simp add: powr_numeral)
  ultimately show ?thesis by simp
qed

lemma baseMod_Fin:
  "sr \<noteq> 0 \<Longrightarrow> baseMod i sr (Fin f) (Fin x) = Fin (sin (2 * pi * (real i / real_of_int sr) * f + x))"
  by (simp add: baseMod_def)

lemma sinMod_Fin:
  "sr \<noteq> 0 \<Longrightarrow> sinMod c i sr (Fin f) (Fin x) = Fin (sin (c * pi * (real i / real_of_int sr * f) + x))"
  by (simp add: sinMod_def)

text \<open>
  Claim C7, as amended. With the modulation functions loaded at start-up, the piano
  profile's wave function computes, at each sample index, the square of the fundamental
  plus 0.75 times a phase-shifted fundamental plus 0.1 times a further-shifted one, and
  passes that sum as the argument of the second modulation slot (index 1). That slot is
  a sine with the same frequency multiplier as the fundamental, so the sum modulates the
  phase of the fundamental and the frequency is not doubled.
\<close>

theorem piano_wave_formula:
  assumes "sr \<noteq> 0"
  shows "pianoWave (modulate (Synth r)) ws i sr (Fin f) vol =
           Some (Fin (sin (2 * pi * (real i / real_of_int sr * f)
                   + ((sin (2 * pi * (real i / real_of_int sr) * f))\<^sup>2
                      + 0.75 * sin (2 * pi * (real i / real_of_int sr) * f + 0.25)
                      + 0.1 * sin (2 * pi * (real i / real_of_int sr) * f + 0.5)))), ws)
         \<and> modulate (Synth r) ! 1 = sinMod 2
         \<and> sinMod 2 i sr (Fin f) (Fin x) = baseMod i sr (Fin f) (Fin x)"
proof -
  have "pianoWave (modulate (Synth r)) ws i sr (Fin f) vol =
          Some (sinMod 2 i sr (Fin f) (pianoArg baseMod i sr (Fin f)), ws)"
    by (simp add: pianoWave_def modAt_def Synth_fields(4) loadedMods_def)
  moreover have "pianoArg baseMod i sr (Fin f) =
      Fin ((sin (2 * pi * (real i / real_of_int sr) * f))\<^sup>2
            + 0.75 * sin (2 * pi * (real i / real_of_int sr) * f + 0.25)
            + 0.1 * sin (2 * pi * (real i / real_of_int sr) * f + 0.5))"
  proof -
    have b: "baseMod i sr (Fin f) (Fin z) = Fin (sin (2 * pi * (real i / real_of_int sr) * f + z))"
      for z using assms by (rule baseMod_Fin)
    show ?thesis by (simp only: pianoArg_def b powN_square mulN.simps addN.simps) simp
  qed
  moreover have "modulate (Synth r) ! 1 = sinMod 2"
    by (simp add: Synth_fields(4) loadedMods_def)
  moreover have "sinMod 2 i sr (Fin f) (Fin x) = baseMod i sr (Fin f) (Fin x)"
    using assms by (simp add: baseMod_Fin sinMod_Fin algebra_simps)
  ultimately show ?thesis using assms by (simp add: sinMod_Fin)
qed

theorem piano_wave_formula_witness:
  "(44100 :: int) \<noteq> 0
   \<and> pianoWave (modulate (Synth rngStep)) (emptyVars, rngStep) 0 44100 (Fin 440) 32767 =
       Some (Fin (sin (0.75 * sin 0.25 + 0.1 * sin 0.5)), (emptyVars, rngStep))"
  using piano_wave_formula [of 44100 rngStep "(emptyVars, rngStep)" 0 440 32767 0]
  by simp

text \<open>
  Claim C7 as stated fails: at sample 50 of a C4 (261.63 Hz) at 26163 Hz, half a period
  in, the piano wave differs from what a sine at twice the fundamental's multiplier
  (\<open>sinMod 4\<close>) gives for the same argument.
\<close>

theorem piano_wave_not_doubled:
  "pianoWave (modulate (Synth rngStep)) (emptyVars, rngStep) 50 26163 (Fin 261.63) 32767
   \<noteq> Some (sinMod 4 50 26163 (Fin 261.63) (pianoArg baseMod 50 26163 (Fin 261.63)), (emptyVars, rngStep))"
proof -
  define y :: real where "y = 0.75 * sin 0.25 + 0.1 * sin 0.5"
  have s1: "0 < sin (0.25 :: real)" by (intro sin_gt_zero) (use pi_ge_two in simp_all)
  have s2: "0 < sin (0.5 :: real)" by (intro sin_gt_zero) (use pi_ge_two in simp_all)
  have ypos: "0 < y" using s1 s2 by (simp add: y_def add_pos_pos)
  have "y \<le> 3 / 4 * 1 + 1 / 10 * 1"
    unfolding y_def by (intro add_mono mult_left_mono) simp_all
  then have ylt: "y < pi" using pi_ge_two by linarith
  have sy: "0 < sin y" using ypos ylt by (rule sin_gt_zero)
  have arg: "pianoArg baseMod 50 26163 (Fin (26163 / 100)) = Fin (- y)"
    by (simp add: pianoArg_def baseMod_Fin powN_square y_def)
  have lhs: "pianoWave (modulate (Synth rngStep)) (emptyVars, rngStep) 50 26163 (Fin 261.63) 32767
             = Some (Fin (sin y), (emptyVars, rngStep))"
    by (simp add: pianoWave_def modAt_def Synth_fields(4) loadedMods_def arg sinMod_Fin)
  have rhs: "sinMod 4 50 26163 (Fin 261.63) (pianoArg baseMod 50 26163 (Fin 261.63)) = Fin (- sin y)"
    by (simp add: arg sinMod_Fin)
  show ?thesis unfolding lhs rhs using sy by simp
qed

section \<open>Configuration is preserved; success of a render\<close>

lemma sameConfig_refl [simp]: "sameConfig st st"
  by (simp add: sameConfig_def)

lemma sameConfig_trans: "sameConfig a b \<Longrightarrow> sameConfig b c \<Longrightarrow> sameConfig a c"
  by (simp add: sameConfig_def)

lemma sameConfig_temp [simp]: "sameConfig st (st\<lparr>temp := x\<rparr>)"
  by (simp add: sameConfig_def)

lemma sameConfig_render: "sameConfig st (snd (render st p f d))"
  by (simp add: sameConfig_def render_fields)

lemma sameConfig_cachePut: "cachePut st k oc n d buf = Inr st' \<Longrightarrow> sameConfig st st'"
  by (simp add: sameConfig_def cachePut_fields)

lemma generate_sameConfig: "sameConfig st (snd (generate s n octv dur st))"
proof (cases "findSound st s")
  case None
  then show ?thesis by (simp add: generate_def)
next
  case (Some k)
  define oc where "oc = min 8 (max 1 (toInt32 octv))"
  define d where "d = (if falsy dur then Fin 2 else dur)"
  define st1 where "st1 = st\<lparr>temp := emptyVars\<rparr>"
  define p where "p = sounds st ! k"
  define f where "f = noteFrequency (notesGet n) oc"
  have g: "generate s n octv dur st =
     (if entryFalsy (notesGet n) then (Inl InvalidNote, st1)
      else case cacheGet st k oc n d of
             Some cached \<Rightarrow> (Inr cached, st1)
           | None \<Rightarrow>
               (case render st1 p f d of
                  (Inl e, st2) \<Rightarrow> (Inl e, st2)
                | (Inr wavBuffer, st2) \<Rightarrow>
                    (case cachePut st2 k oc n d wavBuffer of
                       Inl e \<Rightarrow> (Inl e, st2)
                     | Inr st3 \<Rightarrow> (Inr wavBuffer, st3))))"
    unfolding generate_unfold [OF Some] Let_def oc_def d_def st1_def p_def f_def ..
  obtain r st2 where rr: "render st1 p f d = (r, st2)" by (cases "render st1 p f d")
  have c1: "sameConfig st st1" by (simp add: st1_def)
  have "sameConfig st1 st2" using sameConfig_render [of st1 p f d] rr by simp
  then have c2: "sameConfig st st2" using c1 sameConfig_trans by blast
  show ?thesis
  proof (cases "entryFalsy (notesGet n)")
    case True
    then show ?thesis using c1 by (simp add: g)
  next
    case False
    show ?thesis
    proof (cases "cacheGet st k oc n d")
      case (Some cached)
      then show ?thesis using False c1 by (simp add: g)
    next
      case None
      show ?thesis
      proof (cases r)
        case (Inl e)
        then show ?thesis using False None rr c2 by (simp add: g)
      next
        case (Inr w)
        show ?thesis
        proof (cases "cachePut st2 k oc n d w")
          case (Inl e)
          then show ?thesis using False None rr c2 Inr by (simp add: g)
        next
          case st3: (Inr st3)
          have "sameConfig st st3"
            using c2 sameConfig_cachePut [OF st3] sameConfig_trans by blast
          then show ?thesis using False None rr Inr st3 by (simp add: g)
        qed
      qed
    qed
  qed
qed

lemma generate_ok:
  assumes wf: "wellFormed st" and fs: "findSound st s = Some k"
    and nf: "\<not> entryFalsy (notesGet n)"
    and total: "\<forall>ws i. wave (sounds st ! k) (modulate st) ws i (sampleRate st)
                 (noteFrequency (notesGet n) (min 8 (max 1 (toInt32 octv)))) (volume st) \<noteq> None"
    and len: "0 \<le> toInt32 (mulN (Fin (real_of_int (sampleRate st))) (if falsy dur then Fin 2 else dur))"
             "toInt32 (mulN (Fin (real_of_int (sampleRate st))) (if falsy dur then Fin 2 else dur))
                \<le> 2147483629"
  shows "\<exists>buf st'. generate s n octv dur st = (Inr buf, st')"
proof -
  define oc where "oc = min 8 (max 1 (toInt32 octv))"
  define d where "d = (if falsy dur then Fin 2 else dur)"
  define st1 where "st1 = st\<lparr>temp := emptyVars\<rparr>"
  define p where "p = sounds st ! k"
  define f where "f = noteFrequency (notesGet n) oc"
  have g: "generate s n octv dur st =
     (case cacheGet st k oc n d of
        Some cached \<Rightarrow> (Inr cached, st1)
      | None \<Rightarrow>
          (case render st1 p f d of
             (Inl e, st2) \<Rightarrow> (Inl e, st2)
           | (Inr wavBuffer, st2) \<Rightarrow>
               (case cachePut st2 k oc n d wavBuffer of
                  Inl e \<Rightarrow> (Inl e, st2)
                | Inr st3 \<Rightarrow> (Inr wavBuffer, st3))))"
    unfolding generate_unfold [OF fs] Let_def oc_def d_def st1_def p_def f_def using nf by simp
  show ?thesis
  proof (cases "cacheGet st k oc n d")
    case (Some cached)
    then show ?thesis by (simp add: g)
  next
    case None
    have sr: "0 \<le> sampleRate st1" "sampleRate st1 \<le> 2147483647"
      using wf by (simp_all add: wellFormed_def st1_def)
    have tot: "\<forall>ws i. wave p (modulate st1) ws i (sampleRate st1) f (volume st1) \<noteq> None"
      using total by (simp add: st1_def p_def f_def oc_def)
    have l: "0 \<le> toInt32 (mulN (Fin (real_of_int (sampleRate st1))) d)"
      "toInt32 (mulN (Fin (real_of_int (sampleRate st1))) d) \<le> 2147483629"
      using len by (simp_all add: st1_def d_def)
    obtain w where w: "fst (render st1 p f d) = Inr w"
      using render_ok [OF sr tot l] by blast
    obtain st2 where rr: "render st1 p f d = (Inr w, st2)"
      using w by (cases "render st1 p f d") auto
    have "fileCache st2 = fileCache st"
      using render_fields(5) [of st1 p f d] rr by (simp add: st1_def)
    moreover have "k < length (sounds st)" using fs by (rule findSound_lt)
    ultimately have "k < length (fileCache st2)" using wf by (simp add: wellFormed_def)
    then obtain st3 where "cachePut st2 k oc n d w = Inr st3"
      using cachePut_ok by blast
    then show ?thesis using None rr by (simp add: g)
  qed
qed

lemma builtin_wave_total:
  assumes "11 \<le> length ms"
  shows "pianoWave ms ws i sr f vol \<noteq> None" "organWave ms ws i sr f vol \<noteq> None"
    "acousticWave ms ws i sr f vol \<noteq> None" "edmWave ms ws i sr f vol \<noteq> None"
  using assms
  by (auto simp: pianoWave_def organWave_def acousticWave_def edmWave_def modAt_def Let_def
      split: prod.splits)

lemma toInt32_nonneg:
  assumes "0 \<le> a" and "a < 2147483648"
  shows "toInt32 (Fin a) = \<lfloor>a\<rfloor>" and "0 \<le> toInt32 (Fin a)"
proof -
  have "0 \<le> \<lfloor>a\<rfloor>" "\<lfloor>a\<rfloor> < 2147483648" using assms by (simp_all add: floor_less_iff)
  then have "wrapInt32 \<lfloor>a\<rfloor> = \<lfloor>a\<rfloor>" by (intro wrapInt32_id) simp_all
  then show "toInt32 (Fin a) = \<lfloor>a\<rfloor>" using assms by (simp add: truncR_def)
  then show "0 \<le> toInt32 (Fin a)" using \<open>0 \<le> \<lfloor>a\<rfloor>\<close> by simp
qed

lemma builtin_profile:
  assumes "sounds st = [piano, organ, acoustic, edm]" and "k < length (sounds st)"
  shows "sounds st ! k = piano \<or> sounds st ! k = organ \<or> sounds st ! k = acoustic
         \<or> sounds st ! k = edm"
proof -
  have "k = 0 \<or> k = 1 \<or> k = 2 \<or> k = 3" using assms by auto
  then show ?thesis using assms(1) by auto
qed

lemma builtin_total:
  assumes "p = piano \<or> p = organ \<or> p = acoustic \<or> p = edm"
  shows "wave p (baseMod # loadedMods) ws i sr f vol \<noteq> None"
proof -
  have "11 \<le> length (baseMod # loadedMods)" by (simp add: loadedMods_def)
  note t = builtin_wave_total [OF this, of ws i sr f vol]
  from assms show ?thesis
  proof (elim disjE)
    assume "p = piano" then show ?thesis using t(1) by (simp add: piano_def)
  next
    assume "p = organ" then show ?thesis using t(2) by (simp add: organ_def)
  next
    assume "p = acoustic" then show ?thesis using t(3) by (simp add: acoustic_def)
  next
    assume "p = edm" then show ?thesis using t(4) by (simp add: edm_def)
  qed
qed



lemma wellFormed_Synth: "wellFormed (Synth r)"
  by (simp add: wellFormed_def Synth_fields)

lemma findSound_Synth:
  "findSound (Synth r) (ByName ''piano'') = Some 0"
  "findSound (Synth r) (ByName ''organ'') = Some 1"
  "findSound (Synth r) (ByName ''acoustic'') = Some 2"
  "findSound (Synth r) (ByName ''edm'') = Some 3"
  by (simp_all add: Synth_fields piano_def organ_def acoustic_def edm_def)

lemma notes_C: "map_of notesTable ''C'' = Some 261.63"
  by (simp add: notesTable_def)



section \<open>Octaves, invalid notes and cache invalidation\<close>

lemma toInt32_of_int:
  "- 2147483648 \<le> z \<Longrightarrow> z < 2147483648 \<Longrightarrow> toInt32 (Fin (real_of_int z)) = z"
  by (simp add: truncR_def wrapInt32_id)

lemma clamp_idem: "min 8 (max 1 (toInt32 (Fin (real_of_int (min 8 (max 1 x)))))) = min 8 (max (1 :: int) x)"
proof -
  have "- 2147483648 \<le> min 8 (max 1 x)" "min 8 (max 1 x) < 2147483648" by simp_all
  then have "toInt32 (Fin (real_of_int (min 8 (max 1 x)))) = min 8 (max 1 x)"
    by (rule toInt32_of_int)
  then show ?thesis by simp
qed

lemma generate_octave_clamped:
  "generate s n octv dur st = generate s n (Fin (real_of_int (min 8 (max 1 (toInt32 octv))))) dur st"
  unfolding generate_def clamp_idem ..

lemma noteFrequency_own:
  "noteFrequency (OwnNumber v) oc = Fin (v * 2 powr (real_of_int oc - 4))"
  by simp

lemma cacheGet_cong:
  "fileCache st' = fileCache st \<Longrightarrow> protoProps st' = protoProps st \<Longrightarrow>
   cacheGet st' k oc n d = cacheGet st k oc n d"
  by (simp add: cacheGet_def Let_def)

lemma regenerate_miss:
  assumes fs: "findSound st s = Some k"
    and miss: "cacheGet st k (min 8 (max 1 (toInt32 octv))) n (if falsy dur then Fin 2 else dur) = None"
    and gen: "generate s n octv dur st = (Inr buf, st')"
  shows "fst (render (st\<lparr>temp := emptyVars\<rparr>) (sounds st ! k)
              (noteFrequency (notesGet n) (min 8 (max 1 (toInt32 octv))))
              (if falsy dur then Fin 2 else dur)) = Inr buf
         \<and> cacheGet st' k (min 8 (max 1 (toInt32 octv))) n (if falsy dur then Fin 2 else dur) = Some buf"
proof -
  define oc where "oc = min 8 (max 1 (toInt32 octv))"
  define d where "d = (if falsy dur then Fin 2 else dur)"
  define st1 where "st1 = st\<lparr>temp := emptyVars\<rparr>"
  define p where "p = sounds st ! k"
  define f where "f = noteFrequency (notesGet n) oc"
  have g: "generate s n octv dur st =
     (if entryFalsy (notesGet n) then (Inl InvalidNote, st1)
      else case render st1 p f d of
             (Inl e, st2) \<Rightarrow> (Inl e, st2)
           | (Inr wavBuffer, st2) \<Rightarrow>
               (case cachePut st2 k oc n d wavBuffer of
                  Inl e \<Rightarrow> (Inl e, st2)
                | Inr st3 \<Rightarrow> (Inr wavBuffer, st3)))"
    unfolding generate_unfold [OF fs] Let_def oc_def d_def st1_def p_def f_def
    using miss by simp
  obtain r st2 where rr: "render st1 p f d = (r, st2)" by (cases "render st1 p f d")
  from gen have nf: "\<not> entryFalsy (notesGet n)" by (auto simp: g split: if_splits)
  from gen nf rr obtain w where w: "r = Inr w" by (cases r) (auto simp: g)
  from gen nf rr w have put: "cachePut st2 k oc n d buf = Inr st'" and "w = buf"
    by (auto simp: g split: sum.splits)
  then have "fst (render st1 p f d) = Inr buf" using rr w by simp
  moreover have "cacheGet st' k oc n d = Some buf" using put by (rule cachePut_get)
  ultimately show ?thesis by (simp add: oc_def d_def st1_def p_def f_def)
qed

lemma generate_miss_result:
  assumes wf: "wellFormed st" and fs: "findSound st s = Some k"
    and nf: "\<not> entryFalsy (notesGet n)"
    and miss: "cacheGet st k (min 8 (max 1 (toInt32 octv))) n (if falsy dur then Fin 2 else dur) = None"
  shows "fst (generate s n octv dur st) =
         fst (render (st\<lparr>temp := emptyVars\<rparr>) (sounds st ! k)
              (noteFrequency (notesGet n) (min 8 (max 1 (toInt32 octv))))
              (if falsy dur then Fin 2 else dur))"
proof -
  define oc where "oc = min 8 (max 1 (toInt32 octv))"
  define d where "d = (if falsy dur then Fin 2 else dur)"
  define st1 where "st1 = st\<lparr>temp := emptyVars\<rparr>"
  define p where "p = sounds st ! k"
  define f where "f = noteFrequency (notesGet n) oc"
  have g: "generate s n octv dur st =
     (case render st1 p f d of
        (Inl e, st2) \<Rightarrow> (Inl e, st2)
      | (Inr wavBuffer, st2) \<Rightarrow>
          (case cachePut st2 k oc n d wavBuffer of
             Inl e \<Rightarrow> (Inl e, st2)
           | Inr st3 \<Rightarrow> (Inr wavBuffer, st3)))"
    unfolding generate_unfold [OF fs] Let_def oc_def d_def st1_def p_def f_def
    using miss nf by simp
  obtain r st2 where rr: "render st1 p f d = (r, st2)" by (cases "render st1 p f d")
  have "fileCache st2 = fileCache st"
    using render_fields(5) [of st1 p f d] rr by (simp add: st1_def)
  moreover have "k < length (sounds st)" using fs by (rule findSound_lt)
  ultimately have kl: "k < length (fileCache st2)" using wf by (simp add: wellFormed_def)
  have "fst (generate s n octv dur st) = r"
  proof (cases r)
    case (Inl e)
    then show ?thesis using rr by (simp add: g)
  next
    case (Inr w)
    obtain st3 where "cachePut st2 k oc n d w = Inr st3" using cachePut_ok [OF kl] by blast
    then show ?thesis using rr Inr by (simp add: g)
  qed
  then show ?thesis using rr by (simp add: oc_def d_def st1_def p_def f_def)
qed

text \<open>
  Claim C8, as amended. For every integer octave in the signed 32-bit range, \<open>generate\<close>
  clamps the octave into \<open>[1, 8]\<close> instead of failing: the call is the call with the
  clamped octave, octave 0 renders as octave 1 and octave 12 as octave 8, and on a cache
  miss the note is rendered at the frequency \<open>base * 2^(clamped - 4)\<close>.
\<close>

theorem octave_clamp:
  "(- 2147483648 \<le> z \<and> z < 2147483648 \<longrightarrow>
      generate s n (Fin (real_of_int z)) dur st
        = generate s n (Fin (real_of_int (min 8 (max 1 z)))) dur st)
   \<and> generate s n (Fin 0) dur st = generate s n (Fin 1) dur st
   \<and> generate s n (Fin 12) dur st = generate s n (Fin 8) dur st
   \<and> (- 2147483648 \<le> z \<and> z < 2147483648 \<and> wellFormed st \<and> findSound st s = Some k
        \<and> map_of notesTable n = Some v
        \<and> cacheGet st k (min 8 (max 1 z)) n (if falsy dur then Fin 2 else dur) = None \<longrightarrow>
      fst (generate s n (Fin (real_of_int z)) dur st)
        = fst (render (st\<lparr>temp := emptyVars\<rparr>) (sounds st ! k)
                (Fin (v * 2 powr (real_of_int (min 8 (max 1 z)) - 4)))
                (if falsy dur then Fin 2 else dur)))"
proof -
  have a: "generate s n (Fin (real_of_int z)) dur st
        = generate s n (Fin (real_of_int (min 8 (max 1 z)))) dur st"
    if "- 2147483648 \<le> z" "z < 2147483648"
    using generate_octave_clamped [of s n "Fin (real_of_int z)" dur st] toInt32_of_int [OF that]
    by simp
  have b: "generate s n (Fin 0) dur st = generate s n (Fin 1) dur st"
    using generate_octave_clamped [of s n "Fin 0" dur st]
    by (simp add: truncR_def wrapInt32_def)
  have c: "generate s n (Fin 12) dur st = generate s n (Fin 8) dur st"
    using generate_octave_clamped [of s n "Fin 12" dur st]
    by (simp add: truncR_def wrapInt32_def)
  have d: "fst (generate s n (Fin (real_of_int z)) dur st)
        = fst (render (st\<lparr>temp := emptyVars\<rparr>) (sounds st ! k)
                (Fin (v * 2 powr (real_of_int (min 8 (max 1 z)) - 4)))
                (if falsy dur then Fin 2 else dur))"
    if z: "- 2147483648 \<le> z" "z < 2147483648" and wf: "wellFormed st"
      and fs: "findSound st s = Some k" and own: "map_of notesTable n = Some v"
      and miss: "cacheGet st k (min 8 (max 1 z)) n (if falsy dur then Fin 2 else dur) = None"
  proof -
    have t: "toInt32 (Fin (real_of_int z)) = z" using z by (rule toInt32_of_int)
    have ng: "notesGet n = OwnNumber v" "\<not> entryFalsy (notesGet n)"
      using own_note_truthy [OF own] by simp_all
    from generate_miss_result [OF wf fs ng(2), where octv = "Fin (real_of_int z)" and dur = dur] miss
    show ?thesis by (simp only: t ng(1) noteFrequency_own)
  qed
  show ?thesis using a b c d by blast
qed

lemma cacheGet_Synth_miss:
  "map_of notesTable n = Some v \<Longrightarrow> cacheGet (Synth r) k oc n d = None"
  by (rule cacheGet_cleared [OF Synth_fields(5) own_note_not_inherited])

theorem octave_clamp_witness:
  "- 2147483648 \<le> (12 :: int) \<and> (12 :: int) < 2147483648 \<and> wellFormed (Synth rngStep)
   \<and> findSound (Synth rngStep) (ByName ''piano'') = Some 0
   \<and> map_of notesTable ''C'' = Some 261.63
   \<and> cacheGet (Synth rngStep) 0 8 ''C'' (Fin 1) = None
   \<and> generate (ByName ''piano'') ''C'' (Fin 12) (Fin 1) (Synth rngStep)
       = generate (ByName ''piano'') ''C'' (Fin 8) (Fin 1) (Synth rngStep)
   \<and> fst (generate (ByName ''piano'') ''C'' (Fin 12) (Fin 1) (Synth rngStep))
       = fst (render ((Synth rngStep)\<lparr>temp := emptyVars\<rparr>) piano (Fin (261.63 * 16)) (Fin 1))"
proof -
  define S where "S = Synth rngStep"
  have z: "- 2147483648 \<le> (12 :: int)" "(12 :: int) < 2147483648" by simp_all
  have wf: "wellFormed S" unfolding S_def by (rule wellFormed_Synth)
  have fs: "findSound S (ByName ''piano'') = Some 0" unfolding S_def by (rule findSound_Synth(1))
  have m: "cacheGet S 0 oc ''C'' d = None" for oc d
    unfolding S_def by (rule cacheGet_Synth_miss [OF notes_C])
  note oc = octave_clamp [of 12 "ByName ''piano''" "''C''" "Fin 1" S 0 "261.63"]
  have e1: "generate (ByName ''piano'') ''C'' (Fin 12) (Fin 1) S
       = generate (ByName ''piano'') ''C'' (Fin 8) (Fin 1) S"
    using oc by blast
  have "fst (generate (ByName ''piano'') ''C'' (Fin (real_of_int 12)) (Fin 1) S)
        = fst (render (S\<lparr>temp := emptyVars\<rparr>) (sounds S ! 0)
                (Fin (261.63 * 2 powr (real_of_int (min 8 (max 1 12)) - 4)))
                (if falsy (Fin 1) then Fin 2 else Fin 1))"
    using oc z wf fs notes_C m by blast
  moreover have "(261.63 :: real) * 2 powr (real_of_int (min 8 (max 1 12)) - 4) = 261.63 * 16"
    by simp
  moreover have "sounds S ! 0 = piano" by (simp add: S_def Synth_fields)
  ultimately have e2: "fst (generate (ByName ''piano'') ''C'' (Fin 12) (Fin 1) S)
       = fst (render (S\<lparr>temp := emptyVars\<rparr>) piano (Fin (261.63 * 16)) (Fin 1))"
    by simp
  show ?thesis
    using z wf fs notes_C m [of 8 "Fin 1"] e1 e2 unfolding S_def by blast
qed

lemma cachePut_other_octave:
  assumes "cachePut st k oc n d buf = Inr st'" and "n \<notin> set objectPrototypeKeys"
    and "nat (oc' - 1) \<noteq> nat (oc - 1)" and "nat (oc - 1) < length (fileCache st ! k)"
  shows "cacheGet st' k oc' n d' = cacheGet st k oc' n d'"
  using assms
  by (auto simp: cachePut_def cacheGet_def noteListGet_def Let_def
      split: if_splits option.splits)

text \<open>
  Claim C8 as stated fails outside the 32-bit range: \<open>octave | 0\<close> wraps, so the octave
  \<open>2^31\<close> becomes \<open>-2^31\<close> and is rendered and cached as octave 1, not as octave 8.
\<close>

theorem octave_wraps:
  "cacheGet (snd (generate (ByName ''piano'') ''C'' (Fin 2147483648) (Fin 1) (Synth rngStep)))
      0 1 ''C'' (Fin 1) \<noteq> None
   \<and> cacheGet (snd (generate (ByName ''piano'') ''C'' (Fin 2147483648) (Fin 1) (Synth rngStep)))
      0 8 ''C'' (Fin 1) = None"
proof -
  define S where "S = Synth rngStep"
  define st1 where "st1 = S\<lparr>temp := emptyVars\<rparr>"
  have fs: "findSound S (ByName ''piano'') = Some 0" unfolding S_def by (rule findSound_Synth(1))
  have oc: "min 8 (max 1 (toInt32 (Fin 2147483648))) = 1"
    by (simp add: truncR_def wrapInt32_def)
  have nf: "\<not> entryFalsy (notesGet ''C'')" using own_note_truthy [OF notes_C] by simp
  have ni: "''C'' \<notin> set objectPrototypeKeys" by (rule own_note_not_inherited [OF notes_C])
  have miss: "cacheGet S 0 oc' ''C'' d = None" for oc' d
    unfolding S_def by (rule cacheGet_Synth_miss [OF notes_C])
  have tot: "\<forall>ws i. wave (sounds S ! 0) (modulate S) ws i (sampleRate S)
       (noteFrequency (notesGet ''C'') (min 8 (max 1 (toInt32 (Fin 2147483648))))) (volume S) \<noteq> None"
    by (simp add: S_def Synth_fields builtin_total)
  have len: "0 \<le> toInt32 (mulN (Fin (real_of_int (sampleRate S))) (if falsy (Fin 1) then Fin 2 else Fin 1))"
    "toInt32 (mulN (Fin (real_of_int (sampleRate S))) (if falsy (Fin 1) then Fin 2 else Fin 1)) \<le> 2147483629"
    by (simp_all add: S_def Synth_fields truncR_def wrapInt32_def)
  obtain buf st' where gen:
    "generate (ByName ''piano'') ''C'' (Fin 2147483648) (Fin 1) S = (Inr buf, st')"
    using generate_ok [OF _ fs nf tot len] wellFormed_Synth [of rngStep] by (auto simp: S_def)
  have g: "generate (ByName ''piano'') ''C'' (Fin 2147483648) (Fin 1) S =
     (case render st1 (sounds S ! 0) (noteFrequency (notesGet ''C'') 1) (Fin 1) of
        (Inl e, st2) \<Rightarrow> (Inl e, st2)
      | (Inr wavBuffer, st2) \<Rightarrow>
          (case cachePut st2 0 1 ''C'' (Fin 1) wavBuffer of
             Inl e \<Rightarrow> (Inl e, st2)
           | Inr st3 \<Rightarrow> (Inr wavBuffer, st3)))"
    unfolding generate_unfold [OF fs] Let_def oc st1_def using nf miss by simp
  obtain r st2 where rr: "render st1 (sounds S ! 0) (noteFrequency (notesGet ''C'') 1) (Fin 1) = (r, st2)"
    by (cases "render st1 (sounds S ! 0) (noteFrequency (notesGet ''C'') 1) (Fin 1)")
  from gen rr obtain w where w: "r = Inr w" by (cases r) (auto simp: g)
  from gen rr w have put: "cachePut st2 0 1 ''C'' (Fin 1) buf = Inr st'"
    by (auto simp: g split: sum.splits)
  have fc2: "fileCache st2 = fileCache S" "protoProps st2 = protoProps S"
    using render_fields(5,6) [of st1 "sounds S ! 0" "noteFrequency (notesGet ''C'') 1" "Fin 1"] rr
    by (simp_all add: st1_def)
  have one: "cacheGet st' 0 1 ''C'' (Fin 1) = Some buf" using put by (rule cachePut_get)
  have "cacheGet st' 0 8 ''C'' (Fin 1) = cacheGet st2 0 8 ''C'' (Fin 1)"
    using fc2 by (intro cachePut_other_octave [OF put ni]) (simp_all add: S_def Synth_fields)
  also have "\<dots> = cacheGet S 0 8 ''C'' (Fin 1)" using fc2 by (rule cacheGet_cong)
  also have "\<dots> = None" by (rule miss)
  finally show ?thesis using one gen by (simp add: S_def)
qed

text \<open>A name that no lookup of the note table finds is rejected before the cache is
  touched.\<close>

lemma generate_unknown_note:
  assumes "findSound st s = Some k" and "notesGet n = Undefined"
  shows "generate s n octv dur st = (Inl InvalidNote, st\<lparr>temp := emptyVars\<rparr>)"
  unfolding generate_unfold [OF assms(1)] Let_def using assms(2) by simp

lemma notesGet_H: "notesGet ''H'' = Undefined"
  by (simp add: notesGet_def notesTable_def objectPrototypeKeys_def)

lemma notesGet_toString: "notesGet ''toString'' = Inherited"
  by (simp add: notesGet_def notesTable_def objectPrototypeKeys_def)

lemma cachePut_inherited:
  assumes "k < length (fileCache st)" and "nat (oc - 1) < length (fileCache st ! k)"
    and "(fileCache st ! k ! nat (oc - 1)) n = None" and "n \<in> set objectPrototypeKeys"
  shows "\<exists>st'. cachePut st k oc n d buf = Inr st'
           \<and> protoProps st' = (protoProps st)(n := (protoProps st n)(d \<mapsto> buf))
           \<and> fileCache st' = fileCache st"
  using assms by (simp add: cachePut_def Let_def)

text \<open>
  Claim C6 at the name \<open>toString\<close>, which is not one of the twelve note names: the
  lookup in the note table finds the method inherited from \<open>Object.prototype\<close>, the
  validity test passes, \<open>generate\<close> returns a buffer instead of failing, and the buffer is
  stored as a property of that inherited method, where the next lookup finds it. The name
  \<open>H\<close> of the claim's example is rejected.
\<close>

theorem generate_accepts_inherited_name:
  "fst (generate (ByName ''piano'') ''toString'' (Fin 4) (Fin 1) (Synth rngStep)) \<noteq> Inl InvalidNote
   \<and> (\<exists>buf. fst (generate (ByName ''piano'') ''toString'' (Fin 4) (Fin 1) (Synth rngStep)) = Inr buf
        \<and> protoProps (snd (generate (ByName ''piano'') ''toString'' (Fin 4) (Fin 1) (Synth rngStep)))
             ''toString'' (Fin 1) = Some buf)
   \<and> fst (generate (ByName ''piano'') ''H'' (Fin 4) (Fin 1) (Synth rngStep)) = Inl InvalidNote"
proof -
  define S where "S = Synth rngStep"
  define st1 where "st1 = S\<lparr>temp := emptyVars\<rparr>"
  have fs: "findSound S (ByName ''piano'') = Some 0" unfolding S_def by (rule findSound_Synth(1))
  have oc: "min 8 (max 1 (toInt32 (Fin 4))) = 4"
    by (simp add: truncR_def wrapInt32_def)
  have nf: "\<not> entryFalsy (notesGet ''toString'')" by (simp add: notesGet_toString)
  have inh: "''toString'' \<in> set objectPrototypeKeys" by (simp add: objectPrototypeKeys_def)
  have miss: "cacheGet S 0 4 ''toString'' (Fin 1) = None"
    by (simp add: cacheGet_def noteListGet_def S_def Synth_fields inh)
  have tot: "\<forall>ws i. wave (sounds S ! 0) (modulate S) ws i (sampleRate S)
       (noteFrequency (notesGet ''toString'') (min 8 (max 1 (toInt32 (Fin 4))))) (volume S) \<noteq> None"
    by (simp add: S_def Synth_fields builtin_total)
  have len: "0 \<le> toInt32 (mulN (Fin (real_of_int (sampleRate S))) (if falsy (Fin 1) then Fin 2 else Fin 1))"
    "toInt32 (mulN (Fin (real_of_int (sampleRate S))) (if falsy (Fin 1) then Fin 2 else Fin 1)) \<le> 2147483629"
    by (simp_all add: S_def Synth_fields truncR_def wrapInt32_def)
  obtain buf st' where gen:
    "generate (ByName ''piano'') ''toString'' (Fin 4) (Fin 1) S = (Inr buf, st')"
    using generate_ok [OF _ fs nf tot len] wellFormed_Synth [of rngStep] by (auto simp: S_def)
  have g: "generate (ByName ''piano'') ''toString'' (Fin 4) (Fin 1) S =
     (case render st1 (sounds S ! 0) (noteFrequency (notesGet ''toString'') 4) (Fin 1) of
        (Inl e, st2) \<Rightarrow> (Inl e, st2)
      | (Inr wavBuffer, st2) \<Rightarrow>
          (case cachePut st2 0 4 ''toString'' (Fin 1) wavBuffer of
             Inl e \<Rightarrow> (Inl e, st2)
           | Inr st3 \<Rightarrow> (Inr wavBuffer, st3)))"
    unfolding generate_unfold [OF fs] Let_def oc st1_def using nf miss by simp
  obtain r st2 where rr:
    "render st1 (sounds S ! 0) (noteFrequency (notesGet ''toString'') 4) (Fin 1) = (r, st2)"
    by (cases "render st1 (sounds S ! 0) (noteFrequency (notesGet ''toString'') 4) (Fin 1)")
  from gen rr obtain w where w: "r = Inr w" by (cases r) (auto simp: g)
  from gen rr w have put: "cachePut st2 0 4 ''toString'' (Fin 1) buf = Inr st'"
    by (auto simp: g split: sum.splits)
  have fc2: "fileCache st2 = fileCache S" "protoProps st2 = protoProps S"
    using render_fields(5,6) [of st1 "sounds S ! 0" "noteFrequency (notesGet ''toString'') 4" "Fin 1"] rr
    by (simp_all add: st1_def)
  have "\<exists>st3. cachePut st2 0 4 ''toString'' (Fin 1) buf = Inr st3
           \<and> protoProps st3 = (protoProps st2)(''toString'' := (protoProps st2 ''toString'')(Fin 1 \<mapsto> buf))
           \<and> fileCache st3 = fileCache st2"
    using inh by (intro cachePut_inherited) (simp_all add: fc2 S_def Synth_fields)
  with put have pp: "protoProps st' ''toString'' (Fin 1) = Some buf" by auto
  have h: "fst (generate (ByName ''piano'') ''H'' (Fin 4) (Fin 1) S) = Inl InvalidNote"
    using generate_unknown_note [OF fs notesGet_H] by simp
  show ?thesis using gen pp h by (simp add: S_def)
qed

section \<open>Cache invalidation by the setters\<close>


lemma volume_range:
  "0 \<le> intOf (roundN (mulN (maxN (Fin 0) (minN (Fin 1) x)) (Fin 32767)))
   \<and> intOf (roundN (mulN (maxN (Fin 0) (minN (Fin 1) x)) (Fin 32767))) \<le> 32767"
proof (cases x)
  case (Fin a)
  define c where "c = max 0 (min 1 a)"
  have c: "0 \<le> c" "c \<le> 1" by (simp_all add: c_def)
  have m: "maxN (Fin 0) (minN (Fin 1) (Fin a)) = Fin c" by (auto simp: c_def)
  have "0 \<le> c * 32767 + 1 / 2" using c by simp
  then have lo: "0 \<le> \<lfloor>c * 32767 + 1 / 2\<rfloor>" by simp
  have "c * 32767 + 1 / 2 < 32768" using c by simp
  then have hi: "\<lfloor>c * 32767 + 1 / 2\<rfloor> < 32768" by (simp add: floor_less_iff)
  show ?thesis using lo hi by (simp add: Fin m)
qed simp_all

lemma setVolume_fields:
  "fileCache (snd (setVolume x st)) = replicate (length (sounds st)) (replicate 8 Map.empty)"
  "sounds (snd (setVolume x st)) = sounds st"
  "sampleRate (snd (setVolume x st)) = sampleRate st"
  "modulate (snd (setVolume x st)) = modulate st"
  "0 \<le> volume (snd (setVolume x st))"
  "volume (snd (setVolume x st)) \<le> 32767"
proof -
  have v: "volume (snd (setVolume x st))
      = intOf (roundN (mulN (maxN (Fin 0) (minN (Fin 1) x)) (Fin 32767)))"
    by (cases x) (simp_all add: setVolume_def Let_def clearCache_fields)
  show "0 \<le> volume (snd (setVolume x st))" "volume (snd (setVolume x st)) \<le> 32767"
    using volume_range [of x] by (simp_all add: v)
qed (simp_all add: setVolume_def Let_def clearCache_fields)




lemma wellFormed_setVolume:
  "4000 \<le> sampleRate st \<Longrightarrow> sampleRate st \<le> 44100 \<Longrightarrow> wellFormed (snd (setVolume x st))"
  by (simp add: wellFormed_def setVolume_fields)

lemma oc4: "min 8 (max 1 (toInt32 (Fin 4))) = 4"
  by (simp add: truncR_def wrapInt32_def)

lemma generate_ok_builtin:
  assumes wf: "wellFormed st"
    and reg: "sounds st = [piano, organ, acoustic, edm]" "modulate st = baseMod # loadedMods"
    and fs: "findSound st s = Some k"
    and nf: "\<not> entryFalsy (notesGet n)"
  shows "\<exists>buf st'. generate s n octv (Fin 1) st = (Inr buf, st')"
proof -
  have k: "k < length (sounds st)" using fs by (rule findSound_lt)
  have p: "sounds st ! k = piano \<or> sounds st ! k = organ \<or> sounds st ! k = acoustic
           \<or> sounds st ! k = edm"
    using reg(1) k by (rule builtin_profile)
  have srb: "4000 \<le> sampleRate st" "sampleRate st \<le> 44100"
    using wf by (simp_all add: wellFormed_def)
  have tot: "\<forall>ws i. wave (sounds st ! k) (modulate st) ws i (sampleRate st)
                 (noteFrequency (notesGet n) (min 8 (max 1 (toInt32 octv)))) (volume st) \<noteq> None"
    using builtin_total [OF p] reg(2) by simp
  have d0: "0 \<le> real_of_int (sampleRate st)" "real_of_int (sampleRate st) < 2147483648"
    using srb by simp_all
  note t = toInt32_nonneg [OF d0]
  have "\<lfloor>real_of_int (sampleRate st)\<rfloor> \<le> 2147483629" using srb by simp
  then show ?thesis
    using t by (intro generate_ok [OF wf fs nf tot]) simp_all
qed

lemma pianoCached_gen:
  "\<exists>buf. generate (ByName ''piano'') ''C'' (Fin 4) (Fin 1) (Synth rngStep) = (Inr buf, pianoCached)
     \<and> cacheGet pianoCached 0 4 ''C'' (Fin 1) = Some buf"
proof -
  have nf: "\<not> entryFalsy (notesGet ''C'')" using own_note_truthy [OF notes_C] by simp
  obtain buf st' where g:
    "generate (ByName ''piano'') ''C'' (Fin 4) (Fin 1) (Synth rngStep) = (Inr buf, st')"
    using generate_ok_builtin [OF wellFormed_Synth Synth_fields(3) Synth_fields(4)
        findSound_Synth(1) nf] by blast
  then have st': "st' = pianoCached" by (simp add: pianoCached_def)
  have miss: "cacheGet (Synth rngStep) 0 (min 8 (max 1 (toInt32 (Fin 4)))) ''C''
      (if falsy (Fin 1) then Fin 2 else Fin 1) = None"
    by (rule cacheGet_Synth_miss [OF notes_C])
  note rm = regenerate_miss [OF findSound_Synth(1) miss g, unfolded oc4]
  from rm g st' show ?thesis by simp
qed

lemma pianoCached_config: "sameConfig (Synth rngStep) pianoCached"
  unfolding pianoCached_def by (rule generate_sameConfig)


section \<open>Memoisation\<close>

lemma renderLoop_stateless:
  assumes "\<forall>ws ws' i. map_option fst (wv ws i) = map_option fst (wv ws' i)"
  shows "fst (renderLoop env wv idxs data ws) = fst (renderLoop env wv idxs data ws')"
proof (induction idxs arbitrary: data ws ws')
  case Nil
  show ?case by simp
next
  case (Cons i idxs)
  from assms have e: "map_option fst (wv ws i) = map_option fst (wv ws' i)" by blast
  show ?case
  proof (cases "wv ws i")
    case None
    then have "wv ws' i = None" using e by simp
    then show ?thesis using None by simp
  next
    case (Some a)
    obtain w ws1 where a: "a = (w, ws1)" by (cases a)
    from Some e a obtain ws1' where s': "wv ws' i = Some (w, ws1')"
      by (cases "wv ws' i") auto
    show ?thesis using Some a s' Cons.IH by simp
  qed
qed

lemma createWav_cong: "sampleRate st' = sampleRate st \<Longrightarrow> createWav st' data = createWav st data"
  by (simp add: createWav_def)

lemma render_stateless:
  assumes sl: "statelessWave (wave p)" and cfg: "sameConfig st st'"
  shows "fst (render st' p f d) = fst (render st p f d)"
proof -
  define sr where "sr = sampleRate st"
  define vol where "vol = volume st"
  define att where "att = attack p sr f vol"
  define damp where "damp = dampen p sr f vol"
  define wv where "wv = (\<lambda>ws i. wave p (modulate st) ws i sr f vol)"
  define attackLen where "attackLen = toInt32 (mulN (Fin (real_of_int sr)) att)"
  define decayLen where "decayLen = toInt32 (mulN (Fin (real_of_int sr)) d)"
  define e1 where "e1 = attackEnv vol sr att"
  define e2 where "e2 = decayEnv vol sr att d damp attackLen"
  define body where "body = (\<lambda>s0 :: synth.
     if decayLen < 0 then (Inl RangeError, s0)
     else case renderLoop e1 wv [0..<nat attackLen] (replicate (nat decayLen) 0)
                 (temp s0, rand s0) of
            (None, ws1) \<Rightarrow> (Inl TypeError, s0\<lparr>temp := fst ws1, rand := snd ws1\<rparr>)
          | (Some data1, ws1) \<Rightarrow>
              (case renderLoop e2 wv [nat attackLen..<nat decayLen] data1 ws1 of
                 (None, ws2) \<Rightarrow> (Inl TypeError, s0\<lparr>temp := fst ws2, rand := snd ws2\<rparr>)
               | (Some data2, ws2) \<Rightarrow>
                   (createWav st (int16Bytes data2), s0\<lparr>temp := fst ws2, rand := snd ws2\<rparr>)))"
  have c: "sampleRate st' = sr" "volume st' = vol" "modulate st' = modulate st"
    using cfg by (simp_all add: sameConfig_def sr_def vol_def)
  have r: "render st p f d = body st"
    unfolding render_unfold Let_def body_def e1_def e2_def decayLen_def attackLen_def wv_def
      damp_def att_def vol_def sr_def ..
  have cw: "createWav st' data = createWav st data" for data
    using c(1) by (intro createWav_cong) (simp add: sr_def)
  have r': "render st' p f d = body st'"
    unfolding render_unfold Let_def c cw body_def e1_def e2_def decayLen_def attackLen_def wv_def
      damp_def att_def ..
  have w: "\<forall>ws ws' i. map_option fst (wv ws i) = map_option fst (wv ws' i)"
    using sl by (simp add: statelessWave_def wv_def)
  have "fst (body st') = fst (body st)"
  proof (cases "decayLen < 0")
    case True
    then show ?thesis by (simp add: body_def)
  next
    case False
    obtain r1 ws1 where l1: "renderLoop e1 wv [0..<nat attackLen] (replicate (nat decayLen) 0)
        (temp st, rand st) = (r1, ws1)" by (metis surj_pair)
    obtain r1' ws1' where l1': "renderLoop e1 wv [0..<nat attackLen] (replicate (nat decayLen) 0)
        (temp st', rand st') = (r1', ws1')" by (metis surj_pair)
    have r1: "r1' = r1"
      using renderLoop_stateless [OF w, of e1 "[0..<nat attackLen]" "replicate (nat decayLen) 0"
          "(temp st', rand st')" "(temp st, rand st)"] l1 l1' by simp
    show ?thesis
    proof (cases r1)
      case None
      then show ?thesis using False l1 l1' r1 by (simp add: body_def)
    next
      case (Some data1)
      obtain r2 ws2 where l2: "renderLoop e2 wv [nat attackLen..<nat decayLen] data1 ws1 = (r2, ws2)"
        by (metis surj_pair)
      obtain r2' ws2' where l2': "renderLoop e2 wv [nat attackLen..<nat decayLen] data1 ws1' = (r2', ws2')"
        by (metis surj_pair)
      have r2: "r2' = r2"
        using renderLoop_stateless [OF w, of e2 "[nat attackLen..<nat decayLen]" data1 ws1' ws1]
          l2 l2' by simp
      show ?thesis
        using False l1 l1' r1 Some l2 l2' r2 by (cases r2) (simp_all add: body_def)
    qed
  qed
  then show ?thesis by (simp add: r r')
qed

lemma generate_stateless:
  assumes fs: "findSound st s = Some k"
    and sl: "statelessWave (wave (sounds st ! k))"
    and cfg: "sameConfig st st'"
    and wf: "wellFormed st" "wellFormed st'"
    and miss: "cacheGet st k (min 8 (max 1 (toInt32 octv))) n (if falsy dur then Fin 2 else dur) = None"
      "cacheGet st' k (min 8 (max 1 (toInt32 octv))) n (if falsy dur then Fin 2 else dur) = None"
  shows "fst (generate s n octv dur st') = fst (generate s n octv dur st)"
proof -
  have snd': "sounds st' = sounds st" using cfg by (simp add: sameConfig_def)
  have fs': "findSound st' s = Some k" using findSound_cong [OF snd'] fs by simp
  show ?thesis
  proof (cases "entryFalsy (notesGet n)")
    case True
    then show ?thesis
      unfolding generate_unfold [OF fs] generate_unfold [OF fs'] Let_def by simp
  next
    case False
    have c1: "sameConfig (st\<lparr>temp := emptyVars\<rparr>) (st'\<lparr>temp := emptyVars\<rparr>)"
      using cfg by (simp add: sameConfig_def)
    show ?thesis
      unfolding generate_miss_result [OF wf(1) fs False miss(1)]
        generate_miss_result [OF wf(2) fs' False miss(2)] snd'
      by (rule render_stateless [OF sl c1])
  qed
qed

lemma stateless_builtin:
  "statelessWave (wave piano)" "statelessWave (wave organ)" "statelessWave (wave edm)"
  by (simp_all add: statelessWave_def piano_def organ_def edm_def pianoWave_def organWave_def
      edmWave_def split: option.splits)

text \<open>
  Claim C1, as amended. When a call of \<open>generate\<close> returns a buffer, the same call on the
  resulting engine returns that very buffer from the cache and changes nothing but the
  scratch object, which it resets: the wave function is not called and no random number
  is drawn. Further, for an instrument whose wave function is stateless (piano, organ and
  edm are), two engines with the same configuration that both miss the key render the
  same bytes for it, so the cached value is a function of the configuration and the key.
  This second part does not extend to the acoustic profile.
\<close>

theorem generate_memoized:
  "(generate s n octv dur st = (Inr buf, st1) \<longrightarrow>
      generate s n octv dur st1 = (Inr buf, st1\<lparr>temp := emptyVars\<rparr>))
   \<and> (findSound st s = Some k \<and> statelessWave (wave (sounds st ! k)) \<and> sameConfig st st'
        \<and> wellFormed st \<and> wellFormed st'
        \<and> cacheGet st k (min 8 (max 1 (toInt32 octv))) n (if falsy dur then Fin 2 else dur) = None
        \<and> cacheGet st' k (min 8 (max 1 (toInt32 octv))) n (if falsy dur then Fin 2 else dur) = None
      \<longrightarrow> fst (generate s n octv dur st') = fst (generate s n octv dur st))
   \<and> statelessWave (wave piano) \<and> statelessWave (wave organ) \<and> statelessWave (wave edm)"
  using generate_twice [of s n octv dur st buf st1]
    generate_stateless [of st s k st' octv n dur] stateless_builtin
  by blast

theorem generate_memoized_witness:
  "(\<exists>buf. generate (ByName ''piano'') ''C'' (Fin 4) (Fin 1) (Synth rngStep) = (Inr buf, pianoCached)
      \<and> generate (ByName ''piano'') ''C'' (Fin 4) (Fin 1) pianoCached
          = (Inr buf, pianoCached\<lparr>temp := emptyVars\<rparr>))
   \<and> findSound (Synth rngStep) (ByName ''piano'') = Some 0
   \<and> statelessWave (wave (sounds (Synth rngStep) ! 0))
   \<and> sameConfig (Synth rngStep) (snd (setVolume (Fin 1) pianoCached))
   \<and> wellFormed (Synth rngStep) \<and> wellFormed (snd (setVolume (Fin 1) pianoCached))
   \<and> cacheGet (Synth rngStep) 0 4 ''C'' (Fin 1) = None
   \<and> cacheGet (snd (setVolume (Fin 1) pianoCached)) 0 4 ''C'' (Fin 1) = None
   \<and> fst (generate (ByName ''piano'') ''C'' (Fin 4) (Fin 1) (snd (setVolume (Fin 1) pianoCached)))
       = fst (generate (ByName ''piano'') ''C'' (Fin 4) (Fin 1) (Synth rngStep))"
proof -
  define S where "S = Synth rngStep"
  define st' where "st' = snd (setVolume (Fin 1) pianoCached)"
  note cfg = pianoCached_config [unfolded sameConfig_def]
  obtain buf where g: "generate (ByName ''piano'') ''C'' (Fin 4) (Fin 1) S = (Inr buf, pianoCached)"
    using pianoCached_gen unfolding S_def by blast
  have fs: "findSound S (ByName ''piano'') = Some 0" unfolding S_def by (rule findSound_Synth(1))
  have sl: "statelessWave (wave (sounds S ! 0))"
    using stateless_builtin(1) by (simp add: S_def Synth_fields)
  have v: "volume st' = 32767" by (simp add: st'_def setVolume_def Let_def clearCache_fields)
  have sc: "sameConfig S st'"
    using cfg v by (simp add: sameConfig_def S_def st'_def setVolume_fields Synth_fields)
  have wf: "wellFormed S" unfolding S_def by (rule wellFormed_Synth)
  have wf': "wellFormed st'"
    unfolding st'_def using cfg by (intro wellFormed_setVolume) (simp_all add: Synth_fields)
  have m: "cacheGet S 0 (min 8 (max 1 (toInt32 (Fin 4)))) ''C'' (if falsy (Fin 1) then Fin 2 else Fin 1) = None"
    unfolding S_def by (rule cacheGet_Synth_miss [OF notes_C])
  have m': "cacheGet st' 0 (min 8 (max 1 (toInt32 (Fin 4)))) ''C'' (if falsy (Fin 1) then Fin 2 else Fin 1) = None"
    unfolding st'_def
    by (rule cacheGet_cleared [OF setVolume_fields(1) own_note_not_inherited [OF notes_C]])
  note inst = generate_memoized [of "ByName ''piano''" "''C''" "Fin 4" "Fin 1" S buf pianoCached
      0 st']
  from inst g have a: "generate (ByName ''piano'') ''C'' (Fin 4) (Fin 1) pianoCached
          = (Inr buf, pianoCached\<lparr>temp := emptyVars\<rparr>)" by blast
  from inst fs sl sc wf wf' m m'
  have b: "fst (generate (ByName ''piano'') ''C'' (Fin 4) (Fin 1) st')
       = fst (generate (ByName ''piano'') ''C'' (Fin 4) (Fin 1) S)" by blast
  have m4: "cacheGet S 0 4 ''C'' (Fin 1) = None" "cacheGet st' 0 4 ''C'' (Fin 1) = None"
    using m [unfolded oc4] m' [unfolded oc4] by simp_all
  show ?thesis
    using g a fs sl sc wf wf' m4 b unfolding S_def st'_def by blast
qed

section \<open>The acoustic profile and the random source\<close>


lemma lowRate_fields:
  "sampleRate lowRateSynth = 4000" "volume lowRateSynth = 32767"
  "sounds lowRateSynth = [piano, organ, acoustic, edm]"
  "modulate lowRateSynth = baseMod # loadedMods"
  "fileCache lowRateSynth = replicate 4 (replicate 8 Map.empty)"
  "temp lowRateSynth = emptyVars" "rand lowRateSynth = rngStep"
  "protoProps lowRateSynth = (\<lambda>k. Map.empty)"
  by (simp_all add: lowRateSynth_def setSampleRate_def Let_def clearCache_fields Synth_fields
      truncR_def wrapInt32_def numeral_eq_Suc)

lemma acoustic_short_loop_high:
  "renderLoop (attackEnv 32767 4000 (Fin (1 / 500)))
     (\<lambda>ws i. acousticWave ms ws i 4000 (Fin (26163 / 100)) 32767) [0..<8] [0, 0, 0, 0]
     (emptyVars, rngStep)
   = (Some [0, 4095, 8191, 12287],
      \<lparr>valueTable = [Fin 1, Fin 1, Fin 1, Fin 1, Fin 1, Fin 1, Fin 1, Fin 1],
        playVal = 0, periodCount = 0\<rparr>, \<lambda>n. 1 / 10)"
  by (simp add: upt_rec [of 0] upt_rec [of "Suc _"] acousticWave_def Let_def emptyVars_def
      random_def attackEnv_def arrGet_def subN_def toInt16_def truncR_def wrapInt32_def
      rngStep_def)

lemma acoustic_short_loop_low:
  "renderLoop (attackEnv 32767 4000 (Fin (1 / 500)))
     (\<lambda>ws i. acousticWave ms ws i 4000 (Fin (26163 / 100)) 32767) [0..<8] [0, 0, 0, 0]
     (emptyVars, \<lambda>n. 1 / 10)
   = (Some [0, - 4095, - 8191, - 12287],
      \<lparr>valueTable = [Fin (- 1), Fin (- 1), Fin (- 1), Fin (- 1), Fin (- 1), Fin (- 1),
                      Fin (- 1), Fin (- 1)],
        playVal = 0, periodCount = 0\<rparr>, \<lambda>n. 1 / 10)"
  by (simp add: upt_rec [of 0] upt_rec [of "Suc _"] acousticWave_def Let_def emptyVars_def
      random_def attackEnv_def arrGet_def subN_def toInt16_def truncR_def wrapInt32_def)

lemma acoustic_short_render:
  assumes "sampleRate st = 4000" "volume st = 32767" "temp st = emptyVars"
  shows "rand st = rngStep \<Longrightarrow>
           fst (render st acoustic (Fin 261.63) (Fin 0.001))
             = createWav st (int16Bytes [0, 4095, 8191, 12287])
           \<and> rand (snd (render st acoustic (Fin 261.63) (Fin 0.001))) = (\<lambda>n. 1 / 10)"
    and "rand st = (\<lambda>n. 1 / 10) \<Longrightarrow>
           fst (render st acoustic (Fin 261.63) (Fin 0.001))
             = createWav st (int16Bytes [0, - 4095, - 8191, - 12287])"
proof -
  have al: "toInt32 (mulN (Fin (real_of_int 4000)) (Fin 0.002)) = 8"
    and dl: "toInt32 (mulN (Fin (real_of_int 4000)) (Fin 0.001)) = 4"
    by (simp_all add: truncR_def wrapInt32_def)
  have r4: "replicate (nat 4) (0 :: 16 word) = [0, 0, 0, 0]" by (simp add: numeral_eq_Suc)
  have u: "[nat 8..<nat 4] = []" by simp
  have n8: "[0..<nat 8] = [0..<8]" by simp
  show "rand st = rngStep \<Longrightarrow>
           fst (render st acoustic (Fin 261.63) (Fin 0.001))
             = createWav st (int16Bytes [0, 4095, 8191, 12287])
           \<and> rand (snd (render st acoustic (Fin 261.63) (Fin 0.001))) = (\<lambda>n. 1 / 10)"
    unfolding render_unfold Let_def assms acoustic_def profile.simps al dl r4 u n8
    by (simp add: acoustic_short_loop_high)
  show "rand st = (\<lambda>n. 1 / 10) \<Longrightarrow>
           fst (render st acoustic (Fin 261.63) (Fin 0.001))
             = createWav st (int16Bytes [0, - 4095, - 8191, - 12287])"
    unfolding render_unfold Let_def assms acoustic_def profile.simps al dl r4 u n8
    by (simp add: acoustic_short_loop_low)
qed

lemma int16Bytes_high: "int16Bytes [0, 4095, 8191, 12287] = [0, 0, 255, 15, 255, 31, 255, 47]"
  by (simp add: int16Bytes_def)

lemma int16Bytes_low: "int16Bytes [0, - 4095, - 8191, - 12287] = [0, 0, 1, 240, 1, 224, 1, 208]"
  by (simp add: int16Bytes_def)

lemma generate_miss_state:
  assumes wf: "wellFormed st" and fs: "findSound st s = Some k"
    and nf: "\<not> entryFalsy (notesGet n)"
    and miss: "cacheGet st k (min 8 (max 1 (toInt32 octv))) n (if falsy dur then Fin 2 else dur) = None"
    and rr: "render (st\<lparr>temp := emptyVars\<rparr>) (sounds st ! k)
              (noteFrequency (notesGet n) (min 8 (max 1 (toInt32 octv))))
              (if falsy dur then Fin 2 else dur) = (Inr w, st2)"
  shows "\<exists>st3. generate s n octv dur st = (Inr w, st3)
          \<and> cachePut st2 k (min 8 (max 1 (toInt32 octv))) n (if falsy dur then Fin 2 else dur) w
              = Inr st3"
proof -
  have "fileCache st2 = fileCache st"
    using render_fields(5) [of "st\<lparr>temp := emptyVars\<rparr>" "sounds st ! k"
        "noteFrequency (notesGet n) (min 8 (max 1 (toInt32 octv)))"
        "if falsy dur then Fin 2 else dur"] rr by simp
  moreover have "k < length (sounds st)" using fs by (rule findSound_lt)
  ultimately have kl: "k < length (fileCache st2)" using wf by (simp add: wellFormed_def)
  obtain st3 where put: "cachePut st2 k (min 8 (max 1 (toInt32 octv))) n
      (if falsy dur then Fin 2 else dur) w = Inr st3"
    using cachePut_ok [OF kl] by blast
  have "generate s n octv dur st = (Inr w, st3)"
    unfolding generate_unfold [OF fs] Let_def using nf miss rr put by simp
  then show ?thesis using put by blast
qed

lemma acoustic_C4: "noteFrequency (notesGet ''C'') 4 = Fin 261.63"
  using own_note_truthy [OF notes_C] by simp

text \<open>
  Claim C1 as stated fails for the acoustic profile, whose wave function seeds its table
  with \<open>Math.random()\<close>: on one engine, with sample rate 4000 and full volume before and
  after, the key (acoustic, 4, C, 0.001) is rendered to one buffer, the cache is cleared
  by setting the volume to the value it already has, and the same key is rendered to a
  different buffer.
\<close>

theorem acoustic_not_memoized:
  "sampleRate reclearedSynth = sampleRate lowRateSynth
   \<and> volume reclearedSynth = volume lowRateSynth
   \<and> map_sum id extractPCM (fst (acousticShort lowRateSynth))
       = Inr [0, 0, 255, 15, 255, 31, 255, 47]
   \<and> map_sum id extractPCM (fst (acousticShort reclearedSynth))
       = Inr [0, 0, 1, 240, 1, 224, 1, 208]"
proof -
  define st1 where "st1 = lowRateSynth\<lparr>temp := emptyVars\<rparr>"
  define d where "d = (if falsy (Fin 0.001) then Fin 2 else Fin 0.001)"
  have d: "d = Fin 0.001" by (simp add: d_def)
  have nf: "\<not> entryFalsy (notesGet ''C'')" using own_note_truthy [OF notes_C] by simp
  note ni = own_note_not_inherited [OF notes_C]
  \<comment> \<open>the first render\<close>
  have wf: "wellFormed lowRateSynth" by (simp add: wellFormed_def lowRate_fields)
  have "sounds lowRateSynth = sounds (Synth rngStep)" by (simp add: lowRate_fields Synth_fields)
  from findSound_cong [OF this] have fs: "findSound lowRateSynth (ByName ''acoustic'') = Some 2"
    by (simp only: findSound_Synth)
  have p: "sounds lowRateSynth ! 2 = acoustic" by (simp add: lowRate_fields)
  have miss: "cacheGet lowRateSynth 2 (min 8 (max 1 (toInt32 (Fin 4)))) ''C'' d = None"
    by (rule cacheGet_cleared [OF lowRate_fields(5) ni])
  have f1: "sampleRate st1 = 4000" "volume st1 = 32767" "temp st1 = emptyVars" "rand st1 = rngStep"
    by (simp_all add: st1_def lowRate_fields)
  note r1 = acoustic_short_render(1) [OF f1]
  obtain h1 where h1: "createWav st1 (int16Bytes [0, 4095, 8191, 12287])
      = Inr (h1 @ int16Bytes [0, 4095, 8191, 12287])" "length h1 = 44"
    using createWav_ok [of st1 "int16Bytes [0, 4095, 8191, 12287]"] f1 by auto
  obtain st2 where rr: "render st1 acoustic (Fin 261.63) (Fin 0.001)
      = (Inr (h1 @ int16Bytes [0, 4095, 8191, 12287]), st2)"
    and rnd2: "rand st2 = (\<lambda>n. 1 / 10)"
    using r1 h1(1) by (cases "render st1 acoustic (Fin 261.63) (Fin 0.001)") auto
  have rr': "render (lowRateSynth\<lparr>temp := emptyVars\<rparr>) (sounds lowRateSynth ! 2)
      (noteFrequency (notesGet ''C'') (min 8 (max 1 (toInt32 (Fin 4)))))
      (if falsy (Fin 0.001) then Fin 2 else Fin 0.001)
      = (Inr (h1 @ int16Bytes [0, 4095, 8191, 12287]), st2)"
    unfolding oc4 p acoustic_C4 d_def [symmetric] d st1_def [symmetric] by (rule rr)
  obtain st3 where g1: "acousticShort lowRateSynth = (Inr (h1 @ int16Bytes [0, 4095, 8191, 12287]), st3)"
    and put: "cachePut st2 2 (min 8 (max 1 (toInt32 (Fin 4)))) ''C''
       (if falsy (Fin 0.001) then Fin 2 else Fin 0.001) (h1 @ int16Bytes [0, 4095, 8191, 12287]) = Inr st3"
    using generate_miss_state [OF wf fs nf miss [unfolded d_def] rr']
    unfolding acousticShort_def by blast
  have a: "map_sum id extractPCM (fst (acousticShort lowRateSynth))
       = Inr [0, 0, 255, 15, 255, 31, 255, 47]"
    using h1(2) by (simp add: g1 extractPCM_def int16Bytes_high)
  \<comment> \<open>the engine after the cache has been cleared\<close>
  have cfg3: "sameConfig lowRateSynth st3"
    using generate_sameConfig [of lowRateSynth "ByName ''acoustic''" "''C''" "Fin 4" "Fin 0.001"] g1
    by (simp add: acousticShort_def)
  have rnd3: "rand st3 = (\<lambda>n. 1 / 10)" using cachePut_fields(6) [OF put] rnd2 by simp
  have rc: "reclearedSynth = snd (setVolume (Fin 1) st3)"
    by (simp add: reclearedSynth_def g1)
  have v: "volume reclearedSynth = 32767"
    by (simp add: rc setVolume_def Let_def clearCache_fields)
  have sr: "sampleRate reclearedSynth = 4000"
    using cfg3 by (simp add: rc setVolume_fields sameConfig_def lowRate_fields)
  have snds: "sounds reclearedSynth = sounds lowRateSynth"
    using cfg3 by (simp add: rc setVolume_fields sameConfig_def)
  have rnd: "rand reclearedSynth = (\<lambda>n. 1 / 10)"
    using rnd3 by (simp add: rc setVolume_def Let_def clearCache_fields)
  have fc: "fileCache reclearedSynth = replicate (length (sounds st3)) (replicate 8 Map.empty)"
    unfolding rc by (rule setVolume_fields(1))
  \<comment> \<open>the second render\<close>
  define st1' where "st1' = reclearedSynth\<lparr>temp := emptyVars\<rparr>"
  have wf': "wellFormed reclearedSynth"
    using cfg3 unfolding rc
    by (intro wellFormed_setVolume) (simp_all add: sameConfig_def lowRate_fields)
  from findSound_cong [OF snds] fs
  have fs': "findSound reclearedSynth (ByName ''acoustic'') = Some 2" by (simp only:)
  have p': "sounds reclearedSynth ! 2 = acoustic" using snds p by simp
  have miss': "cacheGet reclearedSynth 2 (min 8 (max 1 (toInt32 (Fin 4)))) ''C''
      (if falsy (Fin 0.001) then Fin 2 else Fin 0.001) = None"
    by (rule cacheGet_cleared [OF fc ni])
  have f2: "sampleRate st1' = 4000" "volume st1' = 32767" "temp st1' = emptyVars"
    "rand st1' = (\<lambda>n. 1 / 10)"
    by (simp_all add: st1'_def sr v rnd)
  note r2 = acoustic_short_render(2) [OF f2(1-3) f2(4)]
  obtain h2 where h2: "createWav st1' (int16Bytes [0, - 4095, - 8191, - 12287])
      = Inr (h2 @ int16Bytes [0, - 4095, - 8191, - 12287])" "length h2 = 44"
    using createWav_ok [of st1' "int16Bytes [0, - 4095, - 8191, - 12287]"] f2 by auto
  have "fst (acousticShort reclearedSynth)
      = fst (render st1' acoustic (Fin 261.63) (Fin 0.001))"
    unfolding acousticShort_def generate_miss_result [OF wf' fs' nf miss']
    unfolding oc4 p' acoustic_C4 d_def [symmetric] d st1'_def [symmetric] ..
  then have b: "map_sum id extractPCM (fst (acousticShort reclearedSynth))
       = Inr [0, 0, 1, 240, 1, 224, 1, 208]"
    using r2 h2 by (simp add: extractPCM_def int16Bytes_low)
  show ?thesis using a b sr v by (simp add: lowRate_fields)
qed

section \<open>The timeline assembler: lemmas\<close>













end
